theory Spec2Isabelle
  imports Main "HOL-Library.Word" "HOL-Library.AList"
begin

section \<open>Errors\<close>

text \<open>
  The Go code reports failures as \<^verbatim>\<open>error\<close> values. Each place of the source that makes
  an error has a constructor here; \<open>External\<close> stands for an error handed back by a
  collaborator outside the package (storage, node manager, DNS file, VLAN source).
  \<open>RuleNotFound\<close> is the package variable \<^verbatim>\<open>errRuleNotFound\<close>. A run-time panic on
  an index out of range is no error value in Go; it is \<open>IndexOutOfRange\<close> here.
\<close>

datatype error =
    RuleNotFound
  | UnsupportedAllowedConnections "string list"
  | UnsupportedExposedPorts string
  | InvalidCIDR string
  | InvalidIP string
  | SubnetExhausted
  | CantAllocateDevice string
  | NoAvailableDevice
  | IndexOutOfRange
  | NoHostnames
  | External string

section \<open>Launcher: the per-node device counters and the node filters\<close>

subsection \<open>Data\<close>

text \<open>
  Go's \<^verbatim>\<open>int\<close> is a 64-bit two's complement integer on the build targets of the
  repository: the counters are \<open>64 word\<close>, read through \<open>sint\<close>, and \<open>+ 1\<close> wraps.
\<close>

record nodeDevice =
  name :: string
  sharedCount :: "64 word"
  allocatedCount :: "64 word"

text \<open>\<^verbatim>\<open>aostypes.ServiceDevice\<close>: a device a service asks for.\<close>

record ServiceDevice =
  Name :: string
  Permissions :: string

text \<open>\<^verbatim>\<open>cloudprotocol.DeviceInfo\<close> and \<^verbatim>\<open>cloudprotocol.NodeConfig\<close>, the part that
  \<^verbatim>\<open>initNodeConfig\<close> reads.\<close>

record DeviceInfo =
  DeviceName :: string
  SharedCount :: "64 word"

record NodeConfig =
  Priority :: "32 word"
  Labels :: "string list"
  Resources :: "string list"
  Devices :: "DeviceInfo list"

text \<open>
  \<^verbatim>\<open>cloudprotocol.NodeInfo\<close>: the node's id and what its method \<^verbatim>\<open>GetNodeRunners\<close>
  (a library method) returns, \<open>None\<close> when it returns an error.
\<close>

record NodeInfo =
  NodeID' :: string
  NodeRunners :: "string list option"

record nodeHandler =
  nodeInfo :: NodeInfo
  availableResources :: "string list"
  availableLabels :: "string list"
  availableDevices :: "nodeDevice list"
  priority :: "32 word"
  isLocalNode :: bool

subsection \<open>Node initialisation\<close>

definition initNodeConfig :: "NodeConfig \<Rightarrow> nodeHandler \<Rightarrow> nodeHandler" where
  "initNodeConfig nodeConfig node =
     node\<lparr>priority := Priority nodeConfig,
          availableLabels := Labels nodeConfig,
          availableResources := Resources nodeConfig,
          availableDevices :=
            map (\<lambda>device. \<lparr>name = DeviceName device, sharedCount = SharedCount device,
                            allocatedCount = 0\<rparr>)
                (Devices nodeConfig)\<rparr>"

subsection \<open>Device allocation\<close>

text \<open>
  The inner loop of \<^verbatim>\<open>allocateDevices\<close> over \<^verbatim>\<open>node.availableDevices\<close> for one
  requested name. It stops at the first device of that name whose \<open>sharedCount\<close> is not
  0: with an error when the device is used up, with the counter incremented otherwise.
  Devices of another name, and devices of that name with \<open>sharedCount = 0\<close>, are passed
  over; falling out of the loop is the error after it.
\<close>

fun allocateDevice :: "string \<Rightarrow> nodeDevice list \<Rightarrow> error + nodeDevice list" where
  "allocateDevice n [] = Inl (CantAllocateDevice n)"
| "allocateDevice n (d # ds) =
     (if name d \<noteq> n then map_sum id ((#) d) (allocateDevice n ds)
      else if sharedCount d \<noteq> 0 then
        (if allocatedCount d = sharedCount d then Inl (CantAllocateDevice n)
         else Inr (d\<lparr>allocatedCount := allocatedCount d + 1\<rparr> # ds))
      else map_sum id ((#) d) (allocateDevice n ds))"

text \<open>
  The outer loop. The counters are incremented in place, so the increments made for the
  devices before the failing one stay when the call returns an error.
\<close>

fun allocateDevices :: "nodeHandler \<Rightarrow> ServiceDevice list \<Rightarrow> error option \<times> nodeHandler" where
  "allocateDevices node [] = (None, node)"
| "allocateDevices node (serviceDevice # rest) =
     (case allocateDevice (Name serviceDevice) (availableDevices node) of
        Inl e \<Rightarrow> (Some e, node)
      | Inr devices \<Rightarrow> allocateDevices (node\<lparr>availableDevices := devices\<rparr>) rest)"

text \<open>A sequence of calls on the same node, whatever each call returns.\<close>

definition allocateDevicesSeq :: "nodeHandler \<Rightarrow> ServiceDevice list list \<Rightarrow> nodeHandler" where
  "allocateDevicesSeq node requests =
     fold (\<lambda>serviceDevices n. snd (allocateDevices n serviceDevices)) requests node"

subsection \<open>The devices filter\<close>

text \<open>
  The inner loop of \<^verbatim>\<open>nodeHasDesiredDevices\<close>: \<open>True\<close> is \<^verbatim>\<open>continue devicesLoop\<close>,
  \<open>False\<close> is falling out of the loop to \<^verbatim>\<open>return false\<close>.
\<close>

fun hasDesiredDevice :: "string \<Rightarrow> nodeDevice list \<Rightarrow> bool" where
  "hasDesiredDevice n [] = False"
| "hasDesiredDevice n (d # ds) =
     (if n \<noteq> name d then hasDesiredDevice n ds
      else if sharedCount d = 0 \<or> allocatedCount d \<noteq> sharedCount d then True
      else hasDesiredDevice n ds)"

fun nodeHasDesiredDevices :: "nodeHandler \<Rightarrow> ServiceDevice list \<Rightarrow> bool" where
  "nodeHasDesiredDevices node [] = True"
| "nodeHasDesiredDevices node (desiredDevice # rest) =
     (if hasDesiredDevice (Name desiredDevice) (availableDevices node)
      then nodeHasDesiredDevices node rest else False)"

definition getNodesByDevices ::
  "nodeHandler list \<Rightarrow> ServiceDevice list \<Rightarrow> nodeHandler list \<times> error option" where
  "getNodesByDevices availableNodes desiredDevices =
     (if desiredDevices = [] then (availableNodes, None)
      else
        (let nodes = filter (\<lambda>node. nodeHasDesiredDevices node desiredDevices) availableNodes
         in if nodes = [] then (nodes, Some NoAvailableDevice) else (nodes, None)))"

subsection \<open>The runners filter\<close>

text \<open>
  \<^verbatim>\<open>defaultRunners\<close> is a package variable declared in a file of the launcher that is
  not among the sources; it is a parameter here. The inner loop over the nodes for one
  runner appends to the result; a node whose \<^verbatim>\<open>GetNodeRunners\<close> fails is passed over.
\<close>

fun nodesWithRunner :: "string list \<Rightarrow> string \<Rightarrow> nodeHandler list \<Rightarrow> nodeHandler list" where
  "nodesWithRunner defaultRunners runner [] = []"
| "nodesWithRunner defaultRunners runner (node # rest) =
     (case NodeRunners (nodeInfo node) of
        None \<Rightarrow> nodesWithRunner defaultRunners runner rest
      | Some nodeRunners \<Rightarrow>
          if (nodeRunners = [] \<and> runner \<in> set defaultRunners) \<or> runner \<in> set nodeRunners
          then node # nodesWithRunner defaultRunners runner rest
          else nodesWithRunner defaultRunners runner rest)"

fun runnersLoop ::
  "string list \<Rightarrow> nodeHandler list \<Rightarrow> string list \<Rightarrow> nodeHandler list \<Rightarrow> nodeHandler list" where
  "runnersLoop defaultRunners allNodes [] nodes = nodes"
| "runnersLoop defaultRunners allNodes (runner # rest) nodes =
     runnersLoop defaultRunners allNodes rest
       (nodes @ nodesWithRunner defaultRunners runner allNodes)"

definition getNodeByRunners ::
  "string list \<Rightarrow> nodeHandler list \<Rightarrow> string list \<Rightarrow> nodeHandler list" where
  "getNodeByRunners defaultRunners allNodes runners =
     runnersLoop defaultRunners allNodes (if runners = [] then defaultRunners else runners) []"

subsection \<open>Predicates on the device counters\<close>

text \<open>Every counter lies between 0 and the device's shared count (as signed integers).\<close>

definition devicesInBounds :: "nodeDevice list \<Rightarrow> bool" where
  "devicesInBounds ds = (\<forall>d\<in>set ds. 0 \<le>s allocatedCount d \<and> allocatedCount d \<le>s sharedCount d)"

text \<open>
  Device \<open>i\<close> is used up, and it is the device that a request for its name reaches: no
  device of the same name with a shared count other than 0 comes before it in the list.
\<close>

definition usedUp :: "nodeDevice list \<Rightarrow> nat \<Rightarrow> bool" where
  "usedUp ds i \<longleftrightarrow> i < length ds \<and> sharedCount (ds ! i) \<noteq> 0 \<and>
      allocatedCount (ds ! i) = sharedCount (ds ! i) \<and>
      (\<forall>j<i. name (ds ! j) = name (ds ! i) \<longrightarrow> sharedCount (ds ! j) = 0)"

section \<open>Network manager: data\<close>

subsection \<open>Addresses\<close>

text \<open>
  Go's \<^verbatim>\<open>net.IP\<close> is a byte slice and \<^verbatim>\<open>net.IPNet\<close> an address with a mask; the mask
  is kept here as its number of leading ones, which is what a CIDR mask is. The
  conversion \<^verbatim>\<open>net.IP(s)\<close> of a string, which the source applies to stored IP texts,
  takes the bytes of the text as they are: it does not parse.
\<close>

type_synonym IP = "8 word list"

record IPNet =
  IP' :: IP
  Mask :: nat

definition IP_of_string :: "string \<Rightarrow> IP" where
  "IP_of_string s = map of_char s"

text \<open>\<^verbatim>\<open>strconv\<close>'s decimal form of an unsigned number, as \<^verbatim>\<open>%d\<close> prints it.\<close>

fun uitoa :: "nat \<Rightarrow> string" where
  "uitoa n = (if n < 10 then [''0123456789'' ! n]
              else uitoa (n div 10) @ [''0123456789'' ! (n mod 10)])"

declare uitoa.simps [simp del]

definition hexString :: "IP \<Rightarrow> string" where
  "hexString b =
     concat (map (\<lambda>tn. [''0123456789abcdef'' ! (unat tn div 16),
                        ''0123456789abcdef'' ! (unat tn mod 16)]) b)"

fun dotted :: "IP \<Rightarrow> string" where
  "dotted [] = []"
| "dotted [b] = uitoa (unat b)"
| "dotted (b # bs) = uitoa (unat b) @ ''.'' @ dotted bs"

text \<open>
  The text of a sixteen-byte address, as \<^verbatim>\<open>netip.Addr.String\<close> writes it: the eight
  16-bit groups in hexadecimal without leading zeros, separated by colons, with the
  first longest run of two or more zero groups written as \<^verbatim>\<open>::\<close>.
\<close>

fun v6u16 :: "IP \<Rightarrow> nat list" where
  "v6u16 (hi # lo # rest) = (256 * unat hi + unat lo) # v6u16 rest"
| "v6u16 rest = []"

definition appendHex :: "nat \<Rightarrow> string" where
  "appendHex x =
     (if x \<ge> 4096 then [''0123456789abcdef'' ! (x div 4096)] else []) @
     (if x \<ge> 256 then [''0123456789abcdef'' ! (x div 256 mod 16)] else []) @
     (if x \<ge> 16 then [''0123456789abcdef'' ! (x div 16 mod 16)] else []) @
     [''0123456789abcdef'' ! (x mod 16)]"

text \<open>
  The search for the zero run: \<open>i\<close> is the index of the head of the remaining groups,
  and the run kept so far is replaced only by a strictly longer one.
\<close>

fun zeroRun :: "nat list \<Rightarrow> nat \<Rightarrow> (nat \<times> nat) option \<Rightarrow> (nat \<times> nat) option" where
  "zeroRun [] i best = best"
| "zeroRun (g # gs) i best =
     (let l = length (takeWhile (\<lambda>x. x = 0) (g # gs))
      in zeroRun gs (i + 1)
           (if l \<ge> 2 \<and> l > (case best of None \<Rightarrow> 0 | Some (zeroStart, zeroEnd) \<Rightarrow> zeroEnd - zeroStart)
            then Some (i, i + l) else best))"

fun joinColon :: "string list \<Rightarrow> string" where
  "joinColon [] = []"
| "joinColon [w] = w"
| "joinColon (w # ws) = w @ '':'' @ joinColon ws"

definition string6 :: "IP \<Rightarrow> string" where
  "string6 ip =
     (case zeroRun (v6u16 ip) 0 None of
        None \<Rightarrow> joinColon (map appendHex (v6u16 ip))
      | Some (zeroStart, zeroEnd) \<Rightarrow>
          joinColon (map appendHex (take zeroStart (v6u16 ip))) @ ''::'' @
          joinColon (map appendHex (drop zeroEnd (v6u16 ip))))"

text \<open>
  \<^verbatim>\<open>IP.String\<close>: \<^verbatim>\<open><nil>\<close> for the empty slice; \<^verbatim>\<open>?\<close> followed by the bytes in
  hexadecimal for a slice of neither four nor sixteen bytes; dotted decimal for four
  bytes and for the sixteen bytes of an IPv4-mapped address (\<^verbatim>\<open>To4\<close>: ten zero bytes,
  two bytes \<open>0xff\<close>, the four bytes); the IPv6 text otherwise.
\<close>

definition IP_String :: "IP \<Rightarrow> string" where
  "IP_String ip =
     (if ip = [] then ''<nil>''
      else if length ip \<noteq> 4 \<and> length ip \<noteq> 16 then ''?'' @ hexString ip
      else if length ip = 4 then dotted ip
      else if take 10 ip = replicate 10 0 \<and> ip ! 10 = 255 \<and> ip ! 11 = 255
      then dotted (drop 12 ip)
      else string6 ip)"

definition IPNet_String :: "IPNet \<Rightarrow> string" where
  "IPNet_String n = IP_String (IP' n) @ ''/'' @ uitoa (Mask n)"

subsection \<open>The types of \<^verbatim>\<open>aostypes\<close> and of the package\<close>

record InstanceIdent =
  ServiceID :: string
  SubjectID :: string
  Instance :: "64 word"

record aostypes_FirewallRule =
  DstIP :: string
  DstPort :: string
  Proto :: string
  SrcIP :: string

record aostypes_NetworkParameters =
  NetworkID :: string
  Subnet :: string
  IP :: string
  VlanID :: "64 word"
  DNSServers :: "string list"
  FirewallRules :: "aostypes_FirewallRule list"

text \<open>The zero value \<^verbatim>\<open>aostypes.NetworkParameters{}\<close>.\<close>

definition zeroNetworkParameters :: aostypes_NetworkParameters where
  "zeroNetworkParameters =
     \<lparr>NetworkID = [], Subnet = [], IP = [], VlanID = 0, DNSServers = [], FirewallRules = []\<rparr>"

text \<open>
  \<^verbatim>\<open>NetworkParametersStorage\<close> and \<^verbatim>\<open>InstanceNetworkInfo\<close> embed
  \<^verbatim>\<open>aostypes.NetworkParameters\<close> (and the latter \<^verbatim>\<open>aostypes.InstanceIdent\<close>); the embedded
  structs are fields here. The field of the former has a prime, as field names are
  global in a theory.
\<close>

record NetworkParametersStorage =
  NetworkParameters' :: aostypes_NetworkParameters
  NodeID :: string

record FirewallRule =
  Protocol :: string
  Port :: string

record InstanceNetworkInfo =
  InstanceIdent :: InstanceIdent
  NetworkParameters :: aostypes_NetworkParameters
  Rules :: "FirewallRule list"

record NetworkParameters =
  Hosts :: "string list"
  AllowConnections :: "string list"
  ExposePorts :: "string list"

subsection \<open>The subnet allocator\<close>

text \<open>
  Modelled from the spec: the type \<^verbatim>\<open>ipSubnet\<close> and its methods \<^verbatim>\<open>prepareSubnet\<close>,
  \<^verbatim>\<open>releaseIPToSubnet\<close> and \<^verbatim>\<open>releaseIPNetPool\<close> are declared in a file of the package
  that is not among the sources. The specification (section 4.1) gives the allocator a
  configured aggregate from which subnets are carved, and marks addresses in-use or free.
  The state is the aggregate, as the list of the subnets it splits into, each with its
  usable hosts in order, and for every network that has a subnet that subnet and the
  addresses in use in it.
\<close>

record ipSubnet =
  aggregate :: "(IPNet \<times> IP list) list"
  usedIPSubnets :: "(string \<times> IPNet \<times> IP list) list"

text \<open>
  Modelled from the spec: the next unused host of a subnet is handed out and marked
  in-use; with no unused host the failure is the specification's \<^verbatim>\<open>Exhausted\<close>, here
  \<open>SubnetExhausted\<close>.
\<close>

definition allocateIP ::
  "string \<Rightarrow> IPNet \<Rightarrow> IP list \<Rightarrow> ipSubnet \<Rightarrow> (error + IPNet \<times> IP) \<times> ipSubnet" where
  "allocateIP networkID subnet used ipam =
     (case find (\<lambda>ip. ip \<notin> set used)
             (case map_of (aggregate ipam) subnet of None \<Rightarrow> [] | Some hosts \<Rightarrow> hosts) of
        None \<Rightarrow> (Inl SubnetExhausted, ipam)
      | Some ip \<Rightarrow>
          (Inr (subnet, ip),
           ipam\<lparr>usedIPSubnets := AList.update networkID (subnet, ip # used) (usedIPSubnets ipam)\<rparr>))"

text \<open>
  Modelled from the spec: \<^verbatim>\<open>PrepareSubnet(networkID)\<close>. "If networkID already has a
  subnet, return the same Subnet and a freshly allocated host IP within it; otherwise
  carve a new subnet from a configured aggregate and return its first usable host."
  The subnet carved is the first of the aggregate that no network holds.
\<close>

definition prepareSubnet :: "string \<Rightarrow> ipSubnet \<Rightarrow> (error + IPNet \<times> IP) \<times> ipSubnet" where
  "prepareSubnet networkID ipam =
     (case map_of (usedIPSubnets ipam) networkID of
        Some (subnet, used) \<Rightarrow> allocateIP networkID subnet used ipam
      | None \<Rightarrow>
          (case find (\<lambda>(subnet, hosts). subnet \<notin> set (map (fst \<circ> snd) (usedIPSubnets ipam)))
                  (aggregate ipam) of
             None \<Rightarrow> (Inl SubnetExhausted, ipam)
           | Some (subnet, hosts) \<Rightarrow> allocateIP networkID subnet [] ipam))"

text \<open>
  Modelled from the spec: \<^verbatim>\<open>ReleaseIP(networkID, ip)\<close>, "marks IP free. Idempotent."
\<close>

definition releaseIPToSubnet :: "string \<Rightarrow> IP \<Rightarrow> ipSubnet \<Rightarrow> ipSubnet" where
  "releaseIPToSubnet networkID ip ipam =
     ipam\<lparr>usedIPSubnets :=
       AList.map_entry networkID (\<lambda>(subnet, used). (subnet, removeAll ip used))
         (usedIPSubnets ipam)\<rparr>"

text \<open>
  Modelled from the spec: \<^verbatim>\<open>ReleaseNetwork(networkID)\<close>, "releases the whole subnet and
  all IPs within it."
\<close>

definition releaseIPNetPool :: "string \<Rightarrow> ipSubnet \<Rightarrow> ipSubnet" where
  "releaseIPNetPool networkID ipam =
     ipam\<lparr>usedIPSubnets := AList.delete networkID (usedIPSubnets ipam)\<rparr>"

subsection \<open>The DNS registry\<close>

text \<open>
  Modelled from the spec: the type \<^verbatim>\<open>dnsServer\<close> with its fields \<^verbatim>\<open>hosts\<close> and
  \<^verbatim>\<open>IPAddress\<close> and its method \<^verbatim>\<open>addHosts\<close> are declared in a file of the package
  that is not among the sources. Section 4.3: "AddHosts(hostnames, ip) overwrites the
  entry for ip with the supplied hostnames, rewrites the hosts file, flushes resolver
  cache, and signals the resolver". Whether the file and the resolver succeed is the
  environment's answer \<open>rewriteHosts\<close>.
\<close>

record dnsServer =
  hosts :: "(string \<times> string list) list"
  IPAddress :: string

text \<open>
  Modelled from the spec: \<^verbatim>\<open>addHosts\<close>. Section 4.3 names one validation, "Hostnames are
  not validated beyond non-emptiness": a call without hostnames is refused, with the
  error \<open>NoHostnames\<close>, and changes nothing. Otherwise the entry of the IP is overwritten
  and the answer is what rewriting the file and signalling the resolver gave.
\<close>

definition addHosts ::
  "error option \<Rightarrow> string list \<Rightarrow> string \<Rightarrow> dnsServer \<Rightarrow> error option \<times> dnsServer" where
  "addHosts rewriteHosts hostnames ip d =
     (if hostnames = [] then (Some NoHostnames, d)
      else (rewriteHosts, d\<lparr>hosts := AList.update ip hostnames (hosts d)\<rparr>))"

subsection \<open>The manager and its environment\<close>

text \<open>
  The two maps of the manager are association lists; the order of a list is the order
  in which a \<^verbatim>\<open>range\<close> loop visits the map, which Go leaves open. The mutex is not
  modelled: every function below runs alone.
\<close>

record NetworkManager =
  instancesData :: "(string \<times> (InstanceIdent \<times> InstanceNetworkInfo) list) list"
  providerNetworks :: "(string \<times> NetworkParametersStorage list) list"
  ipamSubnet :: ipSubnet
  dns :: dnsServer

text \<open>
  What the collaborators outside the package answer during one call of the API: the
  storage (\<open>None\<close> is success), the VLAN source behind the hook \<^verbatim>\<open>GetVlanID\<close>, the node
  manager, the hosts file behind \<^verbatim>\<open>addHosts\<close>, and the three functions of Go's package
  \<^verbatim>\<open>net\<close> that read address texts. The hook \<^verbatim>\<open>GetIPSubnet\<close> is \<open>prepareSubnet\<close>, its
  production value. The result of \<^verbatim>\<open>storage.RemoveNetworkInfo\<close> is only logged and the
  storage is no part of the manager, so that call does not appear.
\<close>

record env =
  AddNetworkInstanceInfo :: "InstanceNetworkInfo \<Rightarrow> error option"
  RemoveNetworkInstanceInfo :: "InstanceIdent \<Rightarrow> error option"
  AddNetworkInfo :: "NetworkParametersStorage \<Rightarrow> error option"
  GetVlanID :: "string \<Rightarrow> error + 64 word"
  UpdateNetwork :: "string \<Rightarrow> aostypes_NetworkParameters list \<Rightarrow> error option"
  rewriteHosts :: "error option"
  ParseCIDR :: "string \<Rightarrow> IPNet option"
  ParseIP :: "string \<Rightarrow> IP option"
  Contains :: "IPNet \<Rightarrow> IP \<Rightarrow> bool"

section \<open>Network manager: operations\<close>

subsection \<open>Parsing the policies\<close>

text \<open>\<^verbatim>\<open>strings.Split(s, "/")\<close>; the result has at least one element.\<close>

fun strings_Split :: "char \<Rightarrow> string \<Rightarrow> string list" where
  "strings_Split sep [] = [[]]"
| "strings_Split sep (c # cs) =
     (if c = sep then [] # strings_Split sep cs
      else (case strings_Split sep cs of
              [] \<Rightarrow> [[c]]
            | w # ws \<Rightarrow> (c # w) # ws))"

definition parseAllowConnection :: "string \<Rightarrow> error + string \<times> string \<times> string" where
  "parseAllowConnection connection =
     (let connConf = strings_Split CHR ''/'' connection in
      if length connConf > 3 \<or> length connConf < 2
      then Inl (UnsupportedAllowedConnections connConf)
      else Inr (connConf ! 0, connConf ! 1, if length connConf = 3 then connConf ! 2 else ''tcp''))"

fun ruleExistsLoop :: "FirewallRule list \<Rightarrow> string \<Rightarrow> string \<Rightarrow> bool" where
  "ruleExistsLoop [] port protocol = False"
| "ruleExistsLoop (rule # rest) port protocol =
     (if Port rule = port \<and> protocol = Protocol rule then True
      else ruleExistsLoop rest port protocol)"

definition ruleExists :: "InstanceNetworkInfo \<Rightarrow> string \<Rightarrow> string \<Rightarrow> bool" where
  "ruleExists info port protocol = ruleExistsLoop (Rules info) port protocol"

fun parseExposedPorts :: "string list \<Rightarrow> error + FirewallRule list" where
  "parseExposedPorts [] = Inr []"
| "parseExposedPorts (exposePort # rest) =
     (let portConfig = strings_Split CHR ''/'' exposePort in
      if length portConfig > 2 \<or> length portConfig = 0 then Inl (UnsupportedExposedPorts exposePort)
      else (case parseExposedPorts rest of
              Inl err \<Rightarrow> Inl err
            | Inr rules \<Rightarrow>
                Inr (\<lparr>Protocol = (if length portConfig = 2 then portConfig ! 1 else ''tcp''),
                      Port = portConfig ! 0\<rparr> # rules)))"

subsection \<open>The cache of instances\<close>

fun getNetworkParametersLoop ::
  "InstanceIdent \<Rightarrow> (string \<times> (InstanceIdent \<times> InstanceNetworkInfo) list) list \<Rightarrow>
   aostypes_NetworkParameters \<times> string \<times> bool" where
  "getNetworkParametersLoop instanceIdent [] = (zeroNetworkParameters, [], False)"
| "getNetworkParametersLoop instanceIdent ((networkID, instanceData) # rest) =
     (case map_of instanceData instanceIdent of
        Some networkParameter \<Rightarrow> (NetworkParameters networkParameter, networkID, True)
      | None \<Rightarrow> getNetworkParametersLoop instanceIdent rest)"

definition getNetworkParametersToCache ::
  "NetworkManager \<Rightarrow> InstanceIdent \<Rightarrow> aostypes_NetworkParameters \<times> string \<times> bool" where
  "getNetworkParametersToCache manager instanceIdent =
     getNetworkParametersLoop instanceIdent (instancesData manager)"

text \<open>
  \<^verbatim>\<open>delete\<close> on the inner map of a network that has none does nothing, and makes no
  inner map.
\<close>

definition deleteNetworkParametersFromCache ::
  "string \<Rightarrow> InstanceIdent \<Rightarrow> IP \<Rightarrow> NetworkManager \<Rightarrow> NetworkManager" where
  "deleteNetworkParametersFromCache networkID instanceIdent ip manager =
     manager\<lparr>instancesData :=
                AList.map_entry networkID (AList.delete instanceIdent) (instancesData manager),
             dns := (dns manager)\<lparr>hosts := AList.delete (IP_String ip) (hosts (dns manager))\<rparr>,
             ipamSubnet := releaseIPToSubnet networkID ip (ipamSubnet manager)\<rparr>"

definition addNetworkParametersToCache :: "InstanceNetworkInfo \<Rightarrow> NetworkManager \<Rightarrow> NetworkManager" where
  "addNetworkParametersToCache instanceNetworkInfo manager =
     manager\<lparr>instancesData :=
       AList.map_default (NetworkID (NetworkParameters instanceNetworkInfo))
         [(InstanceIdent instanceNetworkInfo, instanceNetworkInfo)]
         (AList.update (InstanceIdent instanceNetworkInfo) instanceNetworkInfo)
         (instancesData manager)\<rparr>"

definition removeInstanceNetworkParameters ::
  "env \<Rightarrow> string \<Rightarrow> InstanceIdent \<Rightarrow> IP \<Rightarrow> NetworkManager \<Rightarrow> error option \<times> NetworkManager" where
  "removeInstanceNetworkParameters e networkID instanceIdent ip manager =
     (RemoveNetworkInstanceInfo e instanceIdent,
      deleteNetworkParametersFromCache networkID instanceIdent ip manager)"

subsection \<open>Creating the network of an instance\<close>

text \<open>
  The deferred function of \<^verbatim>\<open>createNetwork\<close> runs \<^verbatim>\<open>deleteNetworkParametersFromCache\<close> on
  every return with an error; \<open>ip\<close> is still \<^verbatim>\<open>nil\<close> when the allocation itself failed.
  The function returns its parameters also with an error, as far as they were filled.
\<close>

definition createNetwork ::
  "env \<Rightarrow> InstanceIdent \<Rightarrow> string \<Rightarrow> NetworkParameters \<Rightarrow> NetworkManager \<Rightarrow>
   (aostypes_NetworkParameters \<times> error option) \<times> NetworkManager" where
  "createNetwork e instanceIdent networkID params manager =
     (case prepareSubnet networkID (ipamSubnet manager) of
        (Inl err, ipam) \<Rightarrow>
          ((zeroNetworkParameters, Some err),
           deleteNetworkParametersFromCache networkID instanceIdent []
             (manager\<lparr>ipamSubnet := ipam\<rparr>))
      | (Inr (subnet, ip), ipam) \<Rightarrow>
          (let manager1 = manager\<lparr>ipamSubnet := ipam\<rparr>;
               networkParameters = zeroNetworkParameters
                 \<lparr>NetworkID := networkID, IP := IP_String ip, Subnet := IPNet_String subnet,
                  DNSServers := [IPAddress (dns manager)]\<rparr>
           in case (if ExposePorts params \<noteq> [] then parseExposedPorts (ExposePorts params)
                    else Inr []) of
                Inl err \<Rightarrow>
                  ((networkParameters, Some err),
                   deleteNetworkParametersFromCache networkID instanceIdent ip manager1)
              | Inr rules \<Rightarrow>
                  (let instanceNetworkInfo =
                         \<lparr>InstanceIdent = instanceIdent, NetworkParameters = networkParameters,
                          Rules = rules\<rparr>
                   in case AddNetworkInstanceInfo e instanceNetworkInfo of
                        Some err \<Rightarrow>
                          ((networkParameters, Some err),
                           deleteNetworkParametersFromCache networkID instanceIdent ip manager1)
                      | None \<Rightarrow>
                          ((networkParameters, None),
                           addNetworkParametersToCache instanceNetworkInfo manager1))))"

subsection \<open>Firewall rules\<close>

definition checkIPInSubnet :: "env \<Rightarrow> string \<Rightarrow> string \<Rightarrow> error + bool" where
  "checkIPInSubnet e subnet ip =
     (case ParseCIDR e subnet of
        None \<Rightarrow> Inl (InvalidCIDR subnet)
      | Some ipnet \<Rightarrow>
          (case ParseIP e ip of
             None \<Rightarrow> Inl (InvalidIP ip)
           | Some parsedIP \<Rightarrow> Inr (Contains e ipnet parsedIP)))"

text \<open>
  The two nested loops of \<^verbatim>\<open>getInstanceRule\<close>. \<open>None\<close> is a loop that ran to its end;
  \<open>Some\<close> is a \<^verbatim>\<open>return\<close> inside it.
\<close>

fun instancesLoop ::
  "env \<Rightarrow> string \<Rightarrow> string \<Rightarrow> string \<Rightarrow> string \<Rightarrow> string \<Rightarrow>
   (InstanceIdent \<times> InstanceNetworkInfo) list \<Rightarrow> (error + aostypes_FirewallRule) option" where
  "instancesLoop e serviceID subnet port protocol ip [] = None"
| "instancesLoop e serviceID subnet port protocol ip ((ident, instanceNetworkInfo) # rest) =
     (if ServiceID (InstanceIdent instanceNetworkInfo) \<noteq> serviceID
      then instancesLoop e serviceID subnet port protocol ip rest
      else (case checkIPInSubnet e subnet (IP (NetworkParameters instanceNetworkInfo)) of
              Inl err \<Rightarrow> Some (Inl err)
            | Inr same \<Rightarrow>
                if same then instancesLoop e serviceID subnet port protocol ip rest
                else if ruleExists instanceNetworkInfo port protocol
                then Some (Inr \<lparr>DstIP = IP (NetworkParameters instanceNetworkInfo),
                                DstPort = port, Proto = protocol, SrcIP = ip\<rparr>)
                else instancesLoop e serviceID subnet port protocol ip rest))"

fun networksLoop ::
  "env \<Rightarrow> string \<Rightarrow> string \<Rightarrow> string \<Rightarrow> string \<Rightarrow> string \<Rightarrow>
   (string \<times> (InstanceIdent \<times> InstanceNetworkInfo) list) list \<Rightarrow>
   (error + aostypes_FirewallRule) option" where
  "networksLoop e serviceID subnet port protocol ip [] = None"
| "networksLoop e serviceID subnet port protocol ip ((networkID, instances) # rest) =
     (case instancesLoop e serviceID subnet port protocol ip instances of
        Some r \<Rightarrow> Some r
      | None \<Rightarrow> networksLoop e serviceID subnet port protocol ip rest)"

definition getInstanceRule ::
  "env \<Rightarrow> NetworkManager \<Rightarrow> string \<Rightarrow> string \<Rightarrow> string \<Rightarrow> string \<Rightarrow> string \<Rightarrow>
   error + aostypes_FirewallRule" where
  "getInstanceRule e manager serviceID subnet port protocol ip =
     (case networksLoop e serviceID subnet port protocol ip (instancesData manager) of
        Some r \<Rightarrow> r
      | None \<Rightarrow> Inl RuleNotFound)"

fun prepareFirewallRulesLoop ::
  "env \<Rightarrow> NetworkManager \<Rightarrow> string \<Rightarrow> string \<Rightarrow> string list \<Rightarrow> aostypes_FirewallRule list \<Rightarrow>
   error + aostypes_FirewallRule list" where
  "prepareFirewallRulesLoop e manager subnet ip [] rules = Inr rules"
| "prepareFirewallRulesLoop e manager subnet ip (connection # rest) rules =
     (case parseAllowConnection connection of
        Inl err \<Rightarrow> Inl err
      | Inr (serviceID, port, protocol) \<Rightarrow>
          (case getInstanceRule e manager serviceID subnet port protocol ip of
             Inl err \<Rightarrow>
               if err \<noteq> RuleNotFound then Inl err
               else prepareFirewallRulesLoop e manager subnet ip rest rules
           | Inr instanceRule \<Rightarrow>
               prepareFirewallRulesLoop e manager subnet ip rest (rules @ [instanceRule])))"

definition prepareFirewallRules ::
  "env \<Rightarrow> NetworkManager \<Rightarrow> string \<Rightarrow> string \<Rightarrow> string list \<Rightarrow>
   error + aostypes_FirewallRule list" where
  "prepareFirewallRules e manager subnet ip allowConnection =
     prepareFirewallRulesLoop e manager subnet ip allowConnection []"

subsection \<open>\<^verbatim>\<open>PrepareInstanceNetworkParameters\<close>\<close>

definition instanceHosts :: "InstanceIdent \<Rightarrow> string \<Rightarrow> string list \<Rightarrow> string list" where
  "instanceHosts instanceIdent networkID hs =
     (if ServiceID instanceIdent \<noteq> [] \<and> SubjectID instanceIdent \<noteq> [] then
        hs @
        [uitoa (unat (Instance instanceIdent)) @ ''.'' @ SubjectID instanceIdent @ ''.'' @
           ServiceID instanceIdent,
         uitoa (unat (Instance instanceIdent)) @ ''.'' @ SubjectID instanceIdent @ ''.'' @
           ServiceID instanceIdent @ ''.'' @ networkID] @
        (if Instance instanceIdent = 0 then
           [SubjectID instanceIdent @ ''.'' @ ServiceID instanceIdent,
            SubjectID instanceIdent @ ''.'' @ ServiceID instanceIdent @ ''.'' @ networkID]
         else [])
      else hs)"

text \<open>
  The removal of a binding found under another network passes \<^verbatim>\<open>networkID\<close>, the
  network of the request, and the bytes of the stored IP text, as the source does.
\<close>

definition PrepareInstanceNetworkParameters ::
  "env \<Rightarrow> InstanceIdent \<Rightarrow> string \<Rightarrow> NetworkParameters \<Rightarrow> NetworkManager \<Rightarrow>
   (aostypes_NetworkParameters \<times> error option) \<times> NetworkManager" where
  "PrepareInstanceNetworkParameters e instanceIdent networkID params0 manager =
     (let params = params0\<lparr>Hosts := instanceHosts instanceIdent networkID (Hosts params0)\<rparr>;
          (networkParameters, currentNetworkID, found) =
             getNetworkParametersToCache manager instanceIdent;
          (manager1, found1) =
             (if found \<and> networkID \<noteq> currentNetworkID
              then (snd (removeInstanceNetworkParameters e networkID instanceIdent
                           (IP_of_string (IP networkParameters)) manager), False)
              else (manager, found))
      in case (if \<not> found1 then createNetwork e instanceIdent networkID params manager1
               else ((networkParameters, None), manager1)) of
           ((networkParameters1, Some err), manager2) \<Rightarrow> ((networkParameters1, Some err), manager2)
         | ((networkParameters1, None), manager2) \<Rightarrow>
             (case addHosts (rewriteHosts e) (Hosts params) (IP networkParameters1) (dns manager2) of
                (Some err, dns1) \<Rightarrow> ((networkParameters1, Some err), manager2\<lparr>dns := dns1\<rparr>)
              | (None, dns1) \<Rightarrow>
                  if AllowConnections params \<noteq> [] then
                    (case prepareFirewallRules e (manager2\<lparr>dns := dns1\<rparr>)
                            (Subnet networkParameters1) (IP networkParameters1)
                            (AllowConnections params) of
                       Inl err \<Rightarrow> ((networkParameters1, Some err), manager2\<lparr>dns := dns1\<rparr>)
                     | Inr firewallRules \<Rightarrow>
                         ((networkParameters1\<lparr>FirewallRules := firewallRules\<rparr>, None),
                          manager2\<lparr>dns := dns1\<rparr>))
                  else ((networkParameters1, None), manager2\<lparr>dns := dns1\<rparr>)))"

subsection \<open>Provider networks\<close>

text \<open>
  The body of the loop of \<^verbatim>\<open>removeProviderNetworks\<close> for one entry of
  \<^verbatim>\<open>manager.providerNetworks\<close>.
\<close>

definition removeProviderNetwork ::
  "env \<Rightarrow> string list \<Rightarrow> string \<Rightarrow> string \<times> NetworkParametersStorage list \<Rightarrow>
   NetworkManager \<Rightarrow> NetworkManager" where
  "removeProviderNetwork e providers nodeID entry manager =
     (let networkID = fst entry;
          validNetworks = filter (\<lambda>info. NodeID info \<noteq> []) (snd entry)
      in if networkID \<in> set providers \<and> validNetworks \<noteq> [] then
           manager\<lparr>providerNetworks :=
             AList.update networkID validNetworks (providerNetworks manager)\<rparr>
         else
           (let filteredNetworks = filter (\<lambda>info. NodeID info \<noteq> nodeID) validNetworks;
                manager1 = manager\<lparr>providerNetworks :=
                  AList.update networkID filteredNetworks (providerNetworks manager)\<rparr>
            in if filteredNetworks \<noteq> [] then manager1
               else
                 (let manager2 =
                        fold (\<lambda>(instanceIdent, netInfo) m.
                                snd (removeInstanceNetworkParameters e networkID instanceIdent
                                       (IP_of_string (IP (NetworkParameters netInfo))) m))
                          (case map_of (instancesData manager1) networkID of
                             None \<Rightarrow> [] | Some instances \<Rightarrow> instances)
                          manager1
                  in manager2\<lparr>providerNetworks :=
                                AList.delete networkID (providerNetworks manager2),
                              ipamSubnet := releaseIPNetPool networkID (ipamSubnet manager2)\<rparr>)))"

definition removeProviderNetworks ::
  "env \<Rightarrow> string list \<Rightarrow> string \<Rightarrow> NetworkManager \<Rightarrow> NetworkManager" where
  "removeProviderNetworks e providers nodeID manager =
     fold (removeProviderNetwork e providers nodeID) (providerNetworks manager) manager"

text \<open>
  \<^verbatim>\<open>setupNetworkParameters\<close> fills the subnet and the IP of the binding it is given by
  pointer; \<open>Inr\<close> carries the binding as filled and stored.
\<close>

definition setupNetworkParameters ::
  "env \<Rightarrow> string \<Rightarrow> NetworkParametersStorage \<Rightarrow> NetworkManager \<Rightarrow>
   (error + NetworkParametersStorage) \<times> NetworkManager" where
  "setupNetworkParameters e providerID networkParameter manager =
     (case prepareSubnet providerID (ipamSubnet manager) of
        (Inl err, ipam) \<Rightarrow> (Inl err, manager\<lparr>ipamSubnet := ipam\<rparr>)
      | (Inr (subnet, ip), ipam) \<Rightarrow>
          (let manager1 = manager\<lparr>ipamSubnet := ipam\<rparr>;
               networkParameter1 = networkParameter
                 \<lparr>NetworkParameters' := (NetworkParameters' networkParameter)
                    \<lparr>Subnet := IPNet_String subnet, IP := IP_String ip\<rparr>\<rparr>
           in case AddNetworkInfo e networkParameter1 of
                Some err \<Rightarrow> (Inl err, manager1)
              | None \<Rightarrow>
                  (Inr networkParameter1,
                   manager1\<lparr>providerNetworks :=
                     AList.map_default providerID [networkParameter1]
                       (\<lambda>networks. networks @ [networkParameter1])
                       (providerNetworks manager1)\<rparr>)))"

definition createProviderNetwork ::
  "env \<Rightarrow> string \<Rightarrow> string \<Rightarrow> NetworkManager \<Rightarrow>
   (error + aostypes_NetworkParameters) \<times> NetworkManager" where
  "createProviderNetwork e providerID nodeID manager =
     (case GetVlanID e providerID of
        Inl err \<Rightarrow> (Inl err, manager)
      | Inr vlanID \<Rightarrow>
          (case setupNetworkParameters e providerID
                  \<lparr>NetworkParameters' = zeroNetworkParameters
                     \<lparr>NetworkID := providerID, VlanID := vlanID\<rparr>,
                   NodeID = nodeID\<rparr> manager of
             (Inl err, manager1) \<Rightarrow> (Inl err, manager1)
           | (Inr networkParameter, manager1) \<Rightarrow>
               (Inr (NetworkParameters' networkParameter), manager1)))"

definition updateProviderNetworkForNode ::
  "env \<Rightarrow> string \<Rightarrow> string \<Rightarrow> aostypes_NetworkParameters \<Rightarrow> NetworkManager \<Rightarrow>
   (error + aostypes_NetworkParameters) \<times> NetworkManager" where
  "updateProviderNetworkForNode e providerID nodeID existingNetwork manager =
     (case setupNetworkParameters e providerID
             \<lparr>NetworkParameters' = existingNetwork, NodeID = nodeID\<rparr> manager of
        (Inl err, manager1) \<Rightarrow> (Inl err, manager1)
      | (Inr networkParameter, manager1) \<Rightarrow>
          (Inr (NetworkParameters' networkParameter), manager1))"

text \<open>
  The loop of \<^verbatim>\<open>addProviderNetworks\<close>, with the list of parameters gathered so far. It
  returns that list also with an error. \<^verbatim>\<open>networks[0]\<close> on an empty slice is a run-time
  panic, \<open>IndexOutOfRange\<close> here.
\<close>

fun addProviderNetworksLoop ::
  "env \<Rightarrow> string \<Rightarrow> string list \<Rightarrow> aostypes_NetworkParameters list \<Rightarrow> NetworkManager \<Rightarrow>
   (aostypes_NetworkParameters list \<times> error option) \<times> NetworkManager" where
  "addProviderNetworksLoop e nodeID [] networkParameters manager =
     ((networkParameters, None), manager)"
| "addProviderNetworksLoop e nodeID (providerID # rest) networkParameters manager =
     (case map_of (providerNetworks manager) providerID of
        Some networks \<Rightarrow>
          (case find (\<lambda>networkParameter. NodeID networkParameter = nodeID) networks of
             Some networkParameter \<Rightarrow>
               addProviderNetworksLoop e nodeID rest
                 (networkParameters @ [NetworkParameters' networkParameter]) manager
           | None \<Rightarrow>
               (case networks of
                  [] \<Rightarrow> ((networkParameters, Some IndexOutOfRange), manager)
                | first # _ \<Rightarrow>
                    (case updateProviderNetworkForNode e providerID nodeID
                            (NetworkParameters' first) manager of
                       (Inl err, manager1) \<Rightarrow> ((networkParameters, Some err), manager1)
                     | (Inr netParam, manager1) \<Rightarrow>
                         addProviderNetworksLoop e nodeID rest
                           (networkParameters @ [netParam]) manager1)))
      | None \<Rightarrow>
          (case createProviderNetwork e providerID nodeID manager of
             (Inl err, manager1) \<Rightarrow> ((networkParameters, Some err), manager1)
           | (Inr netParam, manager1) \<Rightarrow>
               addProviderNetworksLoop e nodeID rest (networkParameters @ [netParam]) manager1))"

definition addProviderNetworks ::
  "env \<Rightarrow> string list \<Rightarrow> string \<Rightarrow> NetworkManager \<Rightarrow>
   (aostypes_NetworkParameters list \<times> error option) \<times> NetworkManager" where
  "addProviderNetworks e providers nodeID manager =
     addProviderNetworksLoop e nodeID providers [] manager"

definition UpdateProviderNetwork ::
  "env \<Rightarrow> string list \<Rightarrow> string \<Rightarrow> NetworkManager \<Rightarrow> error option \<times> NetworkManager" where
  "UpdateProviderNetwork e providers nodeID manager =
     (case addProviderNetworks e providers nodeID
             (removeProviderNetworks e providers nodeID manager) of
        ((networkParameters, Some err), manager1) \<Rightarrow> (Some err, manager1)
      | ((networkParameters, None), manager1) \<Rightarrow>
          (UpdateNetwork e nodeID networkParameters, manager1))"

text \<open>
  A run of \<^verbatim>\<open>UpdateProviderNetwork\<close> calls, each with the answers of its environment, its
  providers and its node, whatever each call returns.
\<close>

definition UpdateProviderNetworkSeq ::
  "(env \<times> string list \<times> string) list \<Rightarrow> NetworkManager \<Rightarrow> NetworkManager" where
  "UpdateProviderNetworkSeq calls manager =
     fold (\<lambda>(e, providers, nodeID) m. snd (UpdateProviderNetwork e providers nodeID m))
       calls manager"


subsection \<open>Predicates on the provider networks\<close>

text \<open>
  The bindings of an entry carry the entry's network id and one VLAN; the provider
  networks are a map (no key twice) of such entries.
\<close>

definition entryVlanOK :: "string \<times> NetworkParametersStorage list \<Rightarrow> bool" where
  "entryVlanOK entry \<longleftrightarrow>
     (\<forall>b\<in>set (snd entry). NetworkID (NetworkParameters' b) = fst entry \<and>
        (\<forall>b'\<in>set (snd entry). VlanID (NetworkParameters' b) = VlanID (NetworkParameters' b')))"

definition vlanStable :: "(string \<times> NetworkParametersStorage list) list \<Rightarrow> bool" where
  "vlanStable pn \<longleftrightarrow> distinct (map fst pn) \<and> (\<forall>entry\<in>set pn. entryVlanOK entry)"


text \<open>
  What a reconciliation for \<open>nodeID\<close> with \<open>providers\<close> leaves behind: a map whose entries
  are not empty, have no binding with an empty node id, and have a binding of \<open>nodeID\<close>
  only if the network is among \<open>providers\<close>; and a network in which \<open>nodeID\<close> has a
  binding.
\<close>

definition hasBinding :: "string \<Rightarrow> (string \<times> NetworkParametersStorage list) list \<Rightarrow> string \<Rightarrow> bool" where
  "hasBinding nodeID pn providerID \<longleftrightarrow>
     (\<exists>networks. map_of pn providerID = Some networks \<and> (\<exists>b\<in>set networks. NodeID b = nodeID))"

definition entryReconciled :: "string list \<Rightarrow> string \<Rightarrow> string \<times> NetworkParametersStorage list \<Rightarrow> bool" where
  "entryReconciled providers nodeID entry \<longleftrightarrow>
     snd entry \<noteq> [] \<and> (\<forall>b\<in>set (snd entry). NodeID b \<noteq> []) \<and>
     (fst entry \<notin> set providers \<longrightarrow> (\<forall>b\<in>set (snd entry). NodeID b \<noteq> nodeID))"

definition reconciled :: "string list \<Rightarrow> string \<Rightarrow> (string \<times> NetworkParametersStorage list) list \<Rightarrow> bool" where
  "reconciled providers nodeID pn \<longleftrightarrow>
     distinct (map fst pn) \<and> (\<forall>entry\<in>set pn. entryReconciled providers nodeID entry)"


section \<open>Example data\<close>

text \<open>
  A small installation for the concrete runs below: an allocator with two subnets of
  three hosts each, a manager that \<^verbatim>\<open>New\<close> has just made from an empty storage, and an
  environment in which every collaborator succeeds. Its three functions of package
  \<^verbatim>\<open>net\<close> answer for the addresses of this installation only.
\<close>

definition net17 :: IPNet where
  "net17 = \<lparr>IP' = [172, 17, 0, 0], Mask = 16\<rparr>"

definition net18 :: IPNet where
  "net18 = \<lparr>IP' = [172, 18, 0, 0], Mask = 16\<rparr>"

definition ipam0 :: ipSubnet where
  "ipam0 = \<lparr>aggregate =
       [(net17, [[172, 17, 0, 1], [172, 17, 0, 2], [172, 17, 0, 3]]),
        (net18, [[172, 18, 0, 1], [172, 18, 0, 2], [172, 18, 0, 3]])],
     usedIPSubnets = []\<rparr>"

definition manager0 :: NetworkManager where
  "manager0 = \<lparr>instancesData = [], providerNetworks = [], ipamSubnet = ipam0,
     dns = \<lparr>hosts = [], IPAddress = ''10.0.0.1''\<rparr>\<rparr>"

definition envOK :: env where
  "envOK = \<lparr>AddNetworkInstanceInfo = (\<lambda>info. None),
     RemoveNetworkInstanceInfo = (\<lambda>ident. None),
     AddNetworkInfo = (\<lambda>info. None),
     GetVlanID = (\<lambda>networkID. Inr 7),
     UpdateNetwork = (\<lambda>nodeID params. None),
     rewriteHosts = None,
     ParseCIDR = (\<lambda>s. if s = ''172.17.0.0/16'' then Some net17
                        else if s = ''172.18.0.0/16'' then Some net18 else None),
     ParseIP = (\<lambda>s. map_of [(''172.17.0.1'', [172, 17, 0, 1]), (''172.17.0.2'', [172, 17, 0, 2]),
                              (''172.17.0.3'', [172, 17, 0, 3]), (''172.18.0.1'', [172, 18, 0, 1]),
                              (''172.18.0.2'', [172, 18, 0, 2]), (''172.18.0.3'', [172, 18, 0, 3])] s),
     Contains = (\<lambda>n ip. take 2 ip = take 2 (IP' n))\<rparr>"

text \<open>The storage refuses to add a provider network.\<close>

definition envStorageDown :: env where
  "envStorageDown = envOK\<lparr>AddNetworkInfo := (\<lambda>info. Some (External ''storage''))\<rparr>"

definition svc0 :: InstanceIdent where
  "svc0 = \<lparr>ServiceID = ''svc'', SubjectID = ''sub'', Instance = 0\<rparr>"

definition params80 :: NetworkParameters where
  "params80 = \<lparr>Hosts = [], AllowConnections = [], ExposePorts = [''80'']\<rparr>"

text \<open>
  The manager after node \<open>nodeA\<close> was given the provider networks \<open>netX\<close> and \<open>netY\<close> and
  the instance \<open>svc0\<close> was prepared on \<open>netX\<close>.
\<close>

definition managerX :: NetworkManager where
  "managerX = snd (PrepareInstanceNetworkParameters envOK svc0 ''netX'' params80
     (snd (UpdateProviderNetwork envOK [''netX'', ''netY''] ''nodeA'' manager0)))"


section \<open>Properties of the launcher\<close>

subsection \<open>The filters\<close>

lemma nodesWithRunner_filter:
  "nodesWithRunner dr r ns =
     filter (\<lambda>node. case NodeRunners (nodeInfo node) of None \<Rightarrow> False
                    | Some nodeRunners \<Rightarrow> (nodeRunners = [] \<and> r \<in> set dr) \<or> r \<in> set nodeRunners) ns"
  by (induction ns) (auto split: option.splits)

lemma runnersLoop_concat:
  "runnersLoop dr ns rs acc = acc @ concat (map (\<lambda>r. nodesWithRunner dr r ns) rs)"
  by (induction rs arbitrary: acc) auto

lemma hasDesiredDevice_iff:
  "hasDesiredDevice n ds \<longleftrightarrow>
     (\<exists>d\<in>set ds. name d = n \<and> (sharedCount d = 0 \<or> allocatedCount d \<noteq> sharedCount d))"
  by (induction ds) auto

lemma nodeHasDesiredDevices_iff:
  "nodeHasDesiredDevices node desired \<longleftrightarrow>
     (\<forall>dd\<in>set desired. hasDesiredDevice (Name dd) (availableDevices node))"
  by (induction desired) auto

lemma getNodesByDevices_filter:
  "fst (getNodesByDevices ns desired) = filter (\<lambda>node. nodeHasDesiredDevices node desired) ns"
  by (cases desired) (auto simp: getNodesByDevices_def Let_def)


lemma free_share_in_bounds:
  fixes a s :: "64 word"
  shows "a \<le>s s \<Longrightarrow> a \<noteq> s \<longleftrightarrow> a <s s"
  using signed.less_le [of a s] by blast

lemma hasDesiredDevice_in_bounds:
  assumes "\<forall>d\<in>set ds. 0 \<le>s allocatedCount d \<and> allocatedCount d \<le>s sharedCount d"
  shows "hasDesiredDevice n ds \<longleftrightarrow>
     (\<exists>d\<in>set ds. name d = n \<and> (sharedCount d = 0 \<or> allocatedCount d <s sharedCount d))"
  unfolding hasDesiredDevice_iff using assms free_share_in_bounds by blast

text \<open>
  Claim C2, as the specification states it, fails: a node whose only device named
  \<open>gpu\<close> has \<open>sharedCount = 0\<close> passes the devices filter for a request of \<open>gpu\<close>,
  although it has no device of that name with a shared count above 0 and a counter
  below the shared count.
\<close>

theorem devices_filter_sharedCount_zero_passes:
  "fst (getNodesByDevices
       [\<lparr>nodeInfo = \<lparr>NodeID' = ''node1'', NodeRunners = Some []\<rparr>,
         availableResources = [], availableLabels = [],
         availableDevices = [\<lparr>name = ''gpu'', sharedCount = 0, allocatedCount = 0\<rparr>],
         priority = 5, isLocalNode = True\<rparr>]
       [\<lparr>Name = ''gpu'', Permissions = ''rw''\<rparr>]) =
     [\<lparr>nodeInfo = \<lparr>NodeID' = ''node1'', NodeRunners = Some []\<rparr>,
       availableResources = [], availableLabels = [],
       availableDevices = [\<lparr>name = ''gpu'', sharedCount = 0, allocatedCount = 0\<rparr>],
       priority = 5, isLocalNode = True\<rparr>] \<and>
   \<not> (\<exists>d\<in>set [\<lparr>name = ''gpu'', sharedCount = 0, allocatedCount = 0\<rparr>].
        name d = ''gpu'' \<and> 0 <s sharedCount d \<and> allocatedCount d <s sharedCount d)"
  by (simp add: getNodesByDevices_def)

text \<open>
  Claim C2, amended: a node passes the devices filter if and only if it is among the
  candidates and, for every requested device, it has a device of that name whose shared
  count is 0 or whose counter differs from its shared count; when the counters of the
  node lie between 0 and the shared counts, the latter means that the counter is below
  the shared count. A device with shared count 0 satisfies the filter for its name.
\<close>

theorem devices_filter:
  "(node \<in> set (fst (getNodesByDevices availableNodes desiredDevices)) \<longleftrightarrow>
     node \<in> set availableNodes \<and>
     (\<forall>desiredDevice\<in>set desiredDevices. \<exists>d\<in>set (availableDevices node).
        name d = Name desiredDevice \<and> (sharedCount d = 0 \<or> allocatedCount d \<noteq> sharedCount d))) \<and>
   ((\<forall>d\<in>set (availableDevices node). 0 \<le>s allocatedCount d \<and> allocatedCount d \<le>s sharedCount d) \<longrightarrow>
     (node \<in> set (fst (getNodesByDevices availableNodes desiredDevices)) \<longleftrightarrow>
      node \<in> set availableNodes \<and>
      (\<forall>desiredDevice\<in>set desiredDevices. \<exists>d\<in>set (availableDevices node).
         name d = Name desiredDevice \<and> (sharedCount d = 0 \<or> allocatedCount d <s sharedCount d))))"
proof (intro conjI impI)
  show "node \<in> set (fst (getNodesByDevices availableNodes desiredDevices)) \<longleftrightarrow>
     node \<in> set availableNodes \<and>
     (\<forall>desiredDevice\<in>set desiredDevices. \<exists>d\<in>set (availableDevices node).
        name d = Name desiredDevice \<and> (sharedCount d = 0 \<or> allocatedCount d \<noteq> sharedCount d))"
    by (simp add: getNodesByDevices_filter nodeHasDesiredDevices_iff hasDesiredDevice_iff)
next
  assume "\<forall>d\<in>set (availableDevices node). 0 \<le>s allocatedCount d \<and> allocatedCount d \<le>s sharedCount d"
  then show "node \<in> set (fst (getNodesByDevices availableNodes desiredDevices)) \<longleftrightarrow>
      node \<in> set availableNodes \<and>
      (\<forall>desiredDevice\<in>set desiredDevices. \<exists>d\<in>set (availableDevices node).
         name d = Name desiredDevice \<and> (sharedCount d = 0 \<or> allocatedCount d <s sharedCount d))"
    by (simp add: getNodesByDevices_filter nodeHasDesiredDevices_iff hasDesiredDevice_in_bounds)
qed

theorem devices_filter_witness:
  "list_all (\<lambda>d. 0 \<le>s allocatedCount d \<and> allocatedCount d \<le>s sharedCount d)
     [\<lparr>name = ''gpu'', sharedCount = 2, allocatedCount = 1\<rparr>] \<and>
   \<lparr>nodeInfo = \<lparr>NodeID' = ''node1'', NodeRunners = Some []\<rparr>,
      availableResources = [], availableLabels = [],
      availableDevices = [\<lparr>name = ''gpu'', sharedCount = 2, allocatedCount = 1\<rparr>],
      priority = 5, isLocalNode = True\<rparr>
    \<in> set (fst (getNodesByDevices
        [\<lparr>nodeInfo = \<lparr>NodeID' = ''node1'', NodeRunners = Some []\<rparr>,
          availableResources = [], availableLabels = [],
          availableDevices = [\<lparr>name = ''gpu'', sharedCount = 2, allocatedCount = 1\<rparr>],
          priority = 5, isLocalNode = True\<rparr>,
         \<lparr>nodeInfo = \<lparr>NodeID' = ''node2'', NodeRunners = Some []\<rparr>,
          availableResources = [], availableLabels = [],
          availableDevices = [], priority = 10, isLocalNode = False\<rparr>]
        [\<lparr>Name = ''gpu'', Permissions = ''rw''\<rparr>]))"
proof -
  have b: "list_all (\<lambda>d. 0 \<le>s allocatedCount d \<and> allocatedCount d \<le>s sharedCount d)
     [\<lparr>name = ''gpu'', sharedCount = 2, allocatedCount = 1\<rparr>]"
    by (simp add: word_sle_eq)
  from devices_filter
    [of "\<lparr>nodeInfo = \<lparr>NodeID' = ''node1'', NodeRunners = Some []\<rparr>,
          availableResources = [], availableLabels = [],
          availableDevices = [\<lparr>name = ''gpu'', sharedCount = 2, allocatedCount = 1\<rparr>],
          priority = 5, isLocalNode = True\<rparr>"
        "[\<lparr>nodeInfo = \<lparr>NodeID' = ''node1'', NodeRunners = Some []\<rparr>,
          availableResources = [], availableLabels = [],
          availableDevices = [\<lparr>name = ''gpu'', sharedCount = 2, allocatedCount = 1\<rparr>],
          priority = 5, isLocalNode = True\<rparr>,
         \<lparr>nodeInfo = \<lparr>NodeID' = ''node2'', NodeRunners = Some []\<rparr>,
          availableResources = [], availableLabels = [],
          availableDevices = [], priority = 10, isLocalNode = False\<rparr>]"
        "[\<lparr>Name = ''gpu'', Permissions = ''rw''\<rparr>]", THEN conjunct2] b
  have "\<lparr>nodeInfo = \<lparr>NodeID' = ''node1'', NodeRunners = Some []\<rparr>,
      availableResources = [], availableLabels = [],
      availableDevices = [\<lparr>name = ''gpu'', sharedCount = 2, allocatedCount = 1\<rparr>],
      priority = 5, isLocalNode = True\<rparr>
    \<in> set (fst (getNodesByDevices
        [\<lparr>nodeInfo = \<lparr>NodeID' = ''node1'', NodeRunners = Some []\<rparr>,
          availableResources = [], availableLabels = [],
          availableDevices = [\<lparr>name = ''gpu'', sharedCount = 2, allocatedCount = 1\<rparr>],
          priority = 5, isLocalNode = True\<rparr>,
         \<lparr>nodeInfo = \<lparr>NodeID' = ''node2'', NodeRunners = Some []\<rparr>,
          availableResources = [], availableLabels = [],
          availableDevices = [], priority = 10, isLocalNode = False\<rparr>]
        [\<lparr>Name = ''gpu'', Permissions = ''rw''\<rparr>]))"
    by (simp add: word_sle_eq word_sless_alt)
  with b show ?thesis by (intro conjI)
qed

text \<open>
  Claim C10: the runners filter is the concatenation, over the requested runners in
  their order, of the nodes that support the runner, so a node is listed once for every
  requested runner it supports and the list is grouped by runner. For the request
  \<open>[runc, crun]\<close> and the nodes \<open>node1\<close> (both runners) and \<open>node2\<close> (\<open>runc\<close> only) the
  result is \<open>[node1, node2, node1]\<close>.
\<close>

theorem getNodeByRunners_duplicates:
  "getNodeByRunners defaultRunners allNodes runners =
     concat (map (\<lambda>runner. filter (\<lambda>node. case NodeRunners (nodeInfo node) of
                                             None \<Rightarrow> False
                                           | Some nodeRunners \<Rightarrow>
                                               (nodeRunners = [] \<and> runner \<in> set defaultRunners) \<or>
                                               runner \<in> set nodeRunners) allNodes)
                 (if runners = [] then defaultRunners else runners)) \<and>
   getNodeByRunners [''crun'', ''runc'']
     [\<lparr>nodeInfo = \<lparr>NodeID' = ''node1'', NodeRunners = Some [''crun'', ''runc'']\<rparr>,
       availableResources = [], availableLabels = [], availableDevices = [],
       priority = 5, isLocalNode = True\<rparr>,
      \<lparr>nodeInfo = \<lparr>NodeID' = ''node2'', NodeRunners = Some [''runc'']\<rparr>,
       availableResources = [], availableLabels = [], availableDevices = [],
       priority = 10, isLocalNode = False\<rparr>]
     [''runc'', ''crun''] =
     [\<lparr>nodeInfo = \<lparr>NodeID' = ''node1'', NodeRunners = Some [''crun'', ''runc'']\<rparr>,
       availableResources = [], availableLabels = [], availableDevices = [],
       priority = 5, isLocalNode = True\<rparr>,
      \<lparr>nodeInfo = \<lparr>NodeID' = ''node2'', NodeRunners = Some [''runc'']\<rparr>,
       availableResources = [], availableLabels = [], availableDevices = [],
       priority = 10, isLocalNode = False\<rparr>,
      \<lparr>nodeInfo = \<lparr>NodeID' = ''node1'', NodeRunners = Some [''crun'', ''runc'']\<rparr>,
       availableResources = [], availableLabels = [], availableDevices = [],
       priority = 5, isLocalNode = True\<rparr>]"
proof
  show "getNodeByRunners defaultRunners allNodes runners =
     concat (map (\<lambda>runner. filter (\<lambda>node. case NodeRunners (nodeInfo node) of
                                             None \<Rightarrow> False
                                           | Some nodeRunners \<Rightarrow>
                                               (nodeRunners = [] \<and> runner \<in> set defaultRunners) \<or>
                                               runner \<in> set nodeRunners) allNodes)
                 (if runners = [] then defaultRunners else runners))"
    unfolding getNodeByRunners_def runnersLoop_concat nodesWithRunner_filter by simp
qed (simp add: getNodeByRunners_def)

subsection \<open>The device counters\<close>

lemma counter_step:
  fixes a s :: "64 word"
  assumes "0 \<le>s a" "a \<le>s s" "a \<noteq> s"
  shows "0 \<le>s a + 1 \<and> a + 1 \<le>s s"
proof -
  have lt: "sint a < sint s"
    using assms by (simp add: word_sle_eq) (metis order_less_le signed_word_eqI)
  have "sint s \<le> 2 ^ 63 - 1"
    using sint_lt [of s] by simp
  have "- (2 ^ 63) \<le> sint a"
    using sint_ge [of a] by simp
  have "sint (a + 1) = signed_take_bit 63 (sint a + 1)"
    by (simp add: sint_word_add)
  also have "\<dots> = sint a + 1"
    by (rule signed_take_bit_int_eq_self)
       (use lt \<open>sint s \<le> 2 ^ 63 - 1\<close> \<open>- (2 ^ 63) \<le> sint a\<close> in simp_all)
  finally have "sint (a + 1) = sint a + 1" .
  then show ?thesis
    using assms lt by (simp add: word_sle_eq)
qed

lemma allocateDevice_bounds:
  "allocateDevice n ds = Inr ds' \<Longrightarrow> devicesInBounds ds \<Longrightarrow> devicesInBounds ds'"
proof (induction ds arbitrary: ds')
  case Nil
  then show ?case by simp
next
  case (Cons d ds)
  show ?case
  proof (cases "name d = n \<and> sharedCount d \<noteq> 0")
    case True
    with Cons.prems have ne: "allocatedCount d \<noteq> sharedCount d"
      and eq: "ds' = d\<lparr>allocatedCount := allocatedCount d + 1\<rparr> # ds"
      by (auto split: if_splits)
    from Cons.prems(2) have "0 \<le>s allocatedCount d" "allocatedCount d \<le>s sharedCount d"
      by (simp_all add: devicesInBounds_def)
    with ne have "0 \<le>s allocatedCount d + 1 \<and> allocatedCount d + 1 \<le>s sharedCount d"
      by (intro counter_step)
    with Cons.prems(2) eq show ?thesis
      by (simp add: devicesInBounds_def)
  next
    case False
    with Cons.prems obtain r where r: "allocateDevice n ds = Inr r" and eq: "ds' = d # r"
      by (cases "allocateDevice n ds") (auto split: if_splits)
    from Cons.prems(2) have "devicesInBounds ds" by (simp add: devicesInBounds_def)
    with Cons.IH r have "devicesInBounds r" by blast
    with Cons.prems(2) eq show ?thesis by (simp add: devicesInBounds_def)
  qed
qed

lemma allocateDevices_bounds:
  "devicesInBounds (availableDevices node) \<Longrightarrow>
   devicesInBounds (availableDevices (snd (allocateDevices node req)))"
proof (induction req arbitrary: node)
  case Nil
  then show ?case by simp
next
  case (Cons sd req)
  show ?case
  proof (cases "allocateDevice (Name sd) (availableDevices node)")
    case (Inl e)
    with Cons.prems show ?thesis by simp
  next
    case (Inr ds')
    with Cons.prems have "devicesInBounds ds'" by (blast intro: allocateDevice_bounds)
    with Cons.IH [of "node\<lparr>availableDevices := ds'\<rparr>"] Inr show ?thesis by simp
  qed
qed

lemma allocateDevicesSeq_bounds:
  "devicesInBounds (availableDevices node) \<Longrightarrow>
   devicesInBounds (availableDevices (allocateDevicesSeq node reqs))"
  unfolding allocateDevicesSeq_def
  by (induction reqs arbitrary: node) (auto intro: allocateDevices_bounds)

lemma initNodeConfig_bounds:
  "\<forall>device\<in>set (Devices nodeConfig). 0 \<le>s SharedCount device \<Longrightarrow>
   devicesInBounds (availableDevices (initNodeConfig nodeConfig node))"
  by (auto simp: initNodeConfig_def devicesInBounds_def)

lemma allocateDevice_usedUp:
  "usedUp ds i \<Longrightarrow> allocateDevice (name (ds ! i)) ds = Inl (CantAllocateDevice (name (ds ! i)))"
proof (induction ds arbitrary: i)
  case Nil
  then show ?case by (simp add: usedUp_def)
next
  case (Cons d ds)
  show ?case
  proof (cases i)
    case 0
    with Cons.prems show ?thesis by (simp add: usedUp_def)
  next
    case (Suc k)
    with Cons.prems have k: "usedUp ds k"
      by (fastforce simp: usedUp_def)
    from Suc Cons.prems have "name d = name (ds ! k) \<longrightarrow> sharedCount d = 0"
      by (auto simp: usedUp_def)
    with Cons.IH [OF k] Suc show ?thesis by auto
  qed
qed

lemma allocateDevice_frame:
  "allocateDevice n ds = Inr ds' \<Longrightarrow>
   length ds' = length ds \<and>
   (\<forall>i<length ds. name (ds' ! i) = name (ds ! i) \<and> sharedCount (ds' ! i) = sharedCount (ds ! i) \<and>
       (allocatedCount (ds ! i) = sharedCount (ds ! i) \<longrightarrow> ds' ! i = ds ! i))"
proof (induction ds arbitrary: ds')
  case Nil
  then show ?case by simp
next
  case (Cons d ds)
  show ?case
  proof (cases "name d = n \<and> sharedCount d \<noteq> 0")
    case True
    with Cons.prems have ne: "allocatedCount d \<noteq> sharedCount d"
      and eq: "ds' = d\<lparr>allocatedCount := allocatedCount d + 1\<rparr> # ds"
      by (auto split: if_splits)
    show ?thesis
      unfolding eq using ne by (auto simp: nth_Cons split: nat.splits)
  next
    case False
    with Cons.prems obtain r where r: "allocateDevice n ds = Inr r" and eq: "ds' = d # r"
      by (cases "allocateDevice n ds") (auto split: if_splits)
    from Cons.IH [OF r] show ?thesis
      unfolding eq by (auto simp: nth_Cons split: nat.splits)
  qed
qed

lemma allocateDevice_usedUp_kept:
  assumes "allocateDevice n ds = Inr ds'" "usedUp ds i"
  shows "usedUp ds' i \<and> ds' ! i = ds ! i"
proof -
  note f = allocateDevice_frame [OF assms(1)]
  from assms(2) have i: "i < length ds" by (simp add: usedUp_def)
  from f i assms(2) have same: "ds' ! i = ds ! i" by (simp add: usedUp_def)
  have "usedUp ds' i"
    unfolding usedUp_def
  proof (intro conjI allI impI)
    show "i < length ds'" using f i by simp
    show "sharedCount (ds' ! i) \<noteq> 0" using same assms(2) by (simp add: usedUp_def)
    show "allocatedCount (ds' ! i) = sharedCount (ds' ! i)" using same assms(2) by (simp add: usedUp_def)
  next
    fix j assume j: "j < i" and nm: "name (ds' ! j) = name (ds' ! i)"
    from j i have jl: "j < length ds" by simp
    from f jl i have "name (ds ! j) = name (ds' ! j)" "name (ds ! i) = name (ds' ! i)"
      "sharedCount (ds' ! j) = sharedCount (ds ! j)" by simp_all
    with nm j assms(2) show "sharedCount (ds' ! j) = 0" by (simp add: usedUp_def)
  qed
  with same show ?thesis by simp
qed

lemma allocateDevice_error:
  "allocateDevice n ds = Inl e \<Longrightarrow> e = CantAllocateDevice n"
proof (induction ds)
  case Nil
  then show ?case by simp
next
  case (Cons d ds)
  then show ?case
    by (cases "allocateDevice n ds") (auto split: if_splits)
qed

lemma allocateDevices_usedUp:
  assumes "usedUp (availableDevices node) i"
    and "\<exists>sd\<in>set req. Name sd = name (availableDevices node ! i)"
  shows "(\<exists>n. fst (allocateDevices node req) = Some (CantAllocateDevice n)) \<and>
         availableDevices (snd (allocateDevices node req)) ! i = availableDevices node ! i"
  using assms
proof (induction req arbitrary: node)
  case Nil
  then show ?case by simp
next
  case (Cons sd req)
  show ?case
  proof (cases "allocateDevice (Name sd) (availableDevices node)")
    case (Inl e)
    then have "e = CantAllocateDevice (Name sd)" by (rule allocateDevice_error)
    with Inl show ?thesis by simp
  next
    case (Inr ds')
    from allocateDevice_usedUp_kept [OF Inr Cons.prems(1)]
    have kept: "usedUp ds' i" and same: "ds' ! i = availableDevices node ! i" by simp_all
    have "Name sd \<noteq> name (availableDevices node ! i)"
      using allocateDevice_usedUp [OF Cons.prems(1)] Inr by auto
    with Cons.prems(2) same
    have "\<exists>sd\<in>set req. Name sd = name (availableDevices (node\<lparr>availableDevices := ds'\<rparr>) ! i)"
      by auto
    with Cons.IH [of "node\<lparr>availableDevices := ds'\<rparr>"] kept same Inr show ?thesis
      by simp
  qed
qed

text \<open>
  Claim C4, as the specification states it, fails in two ways. The shared count of a
  device is taken from the configuration as it is: configured with \<open>-1\<close>, the device is
  granted, its counter \<open>0\<close> being different from \<open>-1\<close>, and its counter \<open>1\<close> is then
  above its shared count. And a name resolves to the first device of that name whose
  shared count is not 0: with two devices \<open>gpu\<close>, the first free (0 of 2) and the second
  used up (1 of 1), a request of \<open>gpu\<close> returns no error.
\<close>

theorem allocateDevices_counters_unguarded:
  "availableDevices (allocateDevicesSeq
      (initNodeConfig \<lparr>Priority = 5, Labels = [], Resources = [],
                       Devices = [\<lparr>DeviceName = ''gpu'', SharedCount = - 1\<rparr>]\<rparr>
         \<lparr>nodeInfo = \<lparr>NodeID' = ''node1'', NodeRunners = Some []\<rparr>,
          availableResources = [], availableLabels = [], availableDevices = [],
          priority = 0, isLocalNode = True\<rparr>)
      [[\<lparr>Name = ''gpu'', Permissions = ''rw''\<rparr>]]) =
     [\<lparr>name = ''gpu'', sharedCount = - 1, allocatedCount = 1\<rparr>] \<and>
   \<not> ((1 :: 64 word) \<le>s - 1) \<and>
   allocateDevices
      \<lparr>nodeInfo = \<lparr>NodeID' = ''node1'', NodeRunners = Some []\<rparr>,
       availableResources = [], availableLabels = [],
       availableDevices = [\<lparr>name = ''gpu'', sharedCount = 2, allocatedCount = 0\<rparr>,
                           \<lparr>name = ''gpu'', sharedCount = 1, allocatedCount = 1\<rparr>],
       priority = 5, isLocalNode = True\<rparr>
      [\<lparr>Name = ''gpu'', Permissions = ''rw''\<rparr>] =
     (None,
      \<lparr>nodeInfo = \<lparr>NodeID' = ''node1'', NodeRunners = Some []\<rparr>,
       availableResources = [], availableLabels = [],
       availableDevices = [\<lparr>name = ''gpu'', sharedCount = 2, allocatedCount = 1\<rparr>,
                           \<lparr>name = ''gpu'', sharedCount = 1, allocatedCount = 1\<rparr>],
       priority = 5, isLocalNode = True\<rparr>)"
  by code_simp

text \<open>
  Claim C4, amended: on a node initialised from a configuration whose shared counts are not
  negative, after any sequence of \<^verbatim>\<open>allocateDevices\<close> calls every device has
  \<open>0 \<le> allocatedCount \<le> sharedCount\<close>. And on any node, a request that names a device
  whose counter equals its shared count (not 0), the device being the one the name
  resolves to, returns the error "can't allocate device" and leaves that device as it
  was.
\<close>

theorem allocateDevices_counters:
  "((\<forall>device\<in>set (Devices nodeConfig). 0 \<le>s SharedCount device) \<longrightarrow>
      (\<forall>d\<in>set (availableDevices (allocateDevicesSeq (initNodeConfig nodeConfig node0) requests)).
          0 \<le>s allocatedCount d \<and> allocatedCount d \<le>s sharedCount d)) \<and>
   (i < length (availableDevices node) \<and>
    sharedCount (availableDevices node ! i) \<noteq> 0 \<and>
    allocatedCount (availableDevices node ! i) = sharedCount (availableDevices node ! i) \<and>
    (\<forall>j<i. name (availableDevices node ! j) = name (availableDevices node ! i) \<longrightarrow>
            sharedCount (availableDevices node ! j) = 0) \<and>
    (\<exists>serviceDevice\<in>set serviceDevices. Name serviceDevice = name (availableDevices node ! i)) \<longrightarrow>
      (\<exists>n. fst (allocateDevices node serviceDevices) = Some (CantAllocateDevice n)) \<and>
      availableDevices (snd (allocateDevices node serviceDevices)) ! i = availableDevices node ! i)"
proof (intro conjI impI)
  assume "\<forall>device\<in>set (Devices nodeConfig). 0 \<le>s SharedCount device"
  then have "devicesInBounds (availableDevices (initNodeConfig nodeConfig node0))"
    by (rule initNodeConfig_bounds)
  then have "devicesInBounds
      (availableDevices (allocateDevicesSeq (initNodeConfig nodeConfig node0) requests))"
    by (rule allocateDevicesSeq_bounds)
  then show "\<forall>d\<in>set (availableDevices (allocateDevicesSeq (initNodeConfig nodeConfig node0) requests)).
          0 \<le>s allocatedCount d \<and> allocatedCount d \<le>s sharedCount d"
    by (simp add: devicesInBounds_def)
next
  assume h: "i < length (availableDevices node) \<and>
    sharedCount (availableDevices node ! i) \<noteq> 0 \<and>
    allocatedCount (availableDevices node ! i) = sharedCount (availableDevices node ! i) \<and>
    (\<forall>j<i. name (availableDevices node ! j) = name (availableDevices node ! i) \<longrightarrow>
            sharedCount (availableDevices node ! j) = 0) \<and>
    (\<exists>serviceDevice\<in>set serviceDevices. Name serviceDevice = name (availableDevices node ! i))"
  then have u: "usedUp (availableDevices node) i"
    by (simp add: usedUp_def)
  from h have r: "\<exists>sd\<in>set serviceDevices. Name sd = name (availableDevices node ! i)"
    by simp
  from allocateDevices_usedUp [OF u r]
  show "\<exists>n. fst (allocateDevices node serviceDevices) = Some (CantAllocateDevice n)"
    and "availableDevices (snd (allocateDevices node serviceDevices)) ! i = availableDevices node ! i"
    by simp_all
qed

theorem allocateDevices_counters_witness:
  "list_all (\<lambda>device. 0 \<le>s SharedCount device) [\<lparr>DeviceName = ''gpu'', SharedCount = 2\<rparr>] \<and>
   list_all (\<lambda>d. 0 \<le>s allocatedCount d \<and> allocatedCount d \<le>s sharedCount d)
     (availableDevices (allocateDevicesSeq
        (initNodeConfig \<lparr>Priority = 5, Labels = [], Resources = [],
                         Devices = [\<lparr>DeviceName = ''gpu'', SharedCount = 2\<rparr>]\<rparr>
           \<lparr>nodeInfo = \<lparr>NodeID' = ''node1'', NodeRunners = Some []\<rparr>,
            availableResources = [], availableLabels = [], availableDevices = [],
            priority = 0, isLocalNode = True\<rparr>)
        [[\<lparr>Name = ''gpu'', Permissions = ''rw''\<rparr>], [\<lparr>Name = ''gpu'', Permissions = ''rw''\<rparr>],
         [\<lparr>Name = ''gpu'', Permissions = ''rw''\<rparr>]])) \<and>
   (\<exists>n. fst (allocateDevices
        \<lparr>nodeInfo = \<lparr>NodeID' = ''node1'', NodeRunners = Some []\<rparr>,
         availableResources = [], availableLabels = [],
         availableDevices = [\<lparr>name = ''gpu'', sharedCount = 2, allocatedCount = 2\<rparr>],
         priority = 5, isLocalNode = True\<rparr>
        [\<lparr>Name = ''gpu'', Permissions = ''rw''\<rparr>]) = Some (CantAllocateDevice n)) \<and>
   availableDevices (snd (allocateDevices
        \<lparr>nodeInfo = \<lparr>NodeID' = ''node1'', NodeRunners = Some []\<rparr>,
         availableResources = [], availableLabels = [],
         availableDevices = [\<lparr>name = ''gpu'', sharedCount = 2, allocatedCount = 2\<rparr>],
         priority = 5, isLocalNode = True\<rparr>
        [\<lparr>Name = ''gpu'', Permissions = ''rw''\<rparr>])) ! 0 =
     \<lparr>name = ''gpu'', sharedCount = 2, allocatedCount = 2\<rparr>"
  using allocateDevices_counters
    [of "\<lparr>Priority = 5, Labels = [], Resources = [],
          Devices = [\<lparr>DeviceName = ''gpu'', SharedCount = 2\<rparr>]\<rparr>"
        "\<lparr>nodeInfo = \<lparr>NodeID' = ''node1'', NodeRunners = Some []\<rparr>,
          availableResources = [], availableLabels = [], availableDevices = [],
          priority = 0, isLocalNode = True\<rparr>"
        "[[\<lparr>Name = ''gpu'', Permissions = ''rw''\<rparr>], [\<lparr>Name = ''gpu'', Permissions = ''rw''\<rparr>],
          [\<lparr>Name = ''gpu'', Permissions = ''rw''\<rparr>]]"
        0
        "\<lparr>nodeInfo = \<lparr>NodeID' = ''node1'', NodeRunners = Some []\<rparr>,
          availableResources = [], availableLabels = [],
          availableDevices = [\<lparr>name = ''gpu'', sharedCount = 2, allocatedCount = 2\<rparr>],
          priority = 5, isLocalNode = True\<rparr>"
        "[\<lparr>Name = ''gpu'', Permissions = ''rw''\<rparr>]"]
  by (simp add: word_sle_eq list_all_iff)

section \<open>Properties of the network manager\<close>

subsection \<open>Firewall rules\<close>

lemma instancesLoop_outside:
  "instancesLoop e serviceID subnet port protocol ip instances = Some (Inr rule) \<Longrightarrow>
   checkIPInSubnet e subnet (DstIP rule) = Inr False \<and> SrcIP rule = ip"
  by (induction instances) (auto split: if_splits sum.splits)

lemma networksLoop_outside:
  "networksLoop e serviceID subnet port protocol ip networks = Some (Inr rule) \<Longrightarrow>
   checkIPInSubnet e subnet (DstIP rule) = Inr False \<and> SrcIP rule = ip"
  by (induction networks) (auto split: option.splits dest: instancesLoop_outside)

lemma getInstanceRule_outside:
  "getInstanceRule e manager serviceID subnet port protocol ip = Inr rule \<Longrightarrow>
   checkIPInSubnet e subnet (DstIP rule) = Inr False \<and> SrcIP rule = ip"
  by (auto simp: getInstanceRule_def split: option.splits dest: networksLoop_outside)

lemma prepareFirewallRulesLoop_outside:
  "prepareFirewallRulesLoop e manager subnet ip allowConnection acc = Inr rules \<Longrightarrow>
   \<forall>rule\<in>set acc. checkIPInSubnet e subnet (DstIP rule) = Inr False \<Longrightarrow>
   \<forall>rule\<in>set rules. checkIPInSubnet e subnet (DstIP rule) = Inr False"
proof (induction allowConnection arbitrary: acc)
  case Nil
  then show ?case by simp
next
  case (Cons connection rest)
  from Cons.prems(1) obtain serviceID port protocol
    where p: "parseAllowConnection connection = Inr (serviceID, port, protocol)"
    by (auto split: sum.splits)
  show ?case
  proof (cases "getInstanceRule e manager serviceID subnet port protocol ip")
    case (Inl err)
    with Cons.prems(1) p have "prepareFirewallRulesLoop e manager subnet ip rest acc = Inr rules"
      by (auto split: if_splits)
    with Cons.IH Cons.prems(2) show ?thesis by blast
  next
    case (Inr instanceRule)
    with Cons.prems(1) p
    have r: "prepareFirewallRulesLoop e manager subnet ip rest (acc @ [instanceRule]) = Inr rules"
      by simp
    from Inr have "checkIPInSubnet e subnet (DstIP instanceRule) = Inr False"
      by (simp add: getInstanceRule_outside)
    with Cons.prems(2)
    have "\<forall>rule\<in>set (acc @ [instanceRule]). checkIPInSubnet e subnet (DstIP rule) = Inr False"
      by simp
    with Cons.IH r show ?thesis by blast
  qed
qed


text \<open>
  Claim C6: every rule that \<^verbatim>\<open>prepareFirewallRules\<close> returns has a destination IP for
  which \<^verbatim>\<open>checkIPInSubnet\<close> with the source's subnet answers \<open>false\<close>; so no rule has, as
  its destination, the IP of a target instance that lies inside the source's subnet.
\<close>

theorem firewall_rules_outside_subnet:
  assumes "prepareFirewallRules e manager subnet ip allowConnection = Inr rules"
  shows "(\<forall>rule\<in>set rules. checkIPInSubnet e subnet (DstIP rule) = Inr False) \<and>
         (\<forall>target. checkIPInSubnet e subnet (IP (NetworkParameters target)) = Inr True \<longrightarrow>
            (\<forall>rule\<in>set rules. DstIP rule \<noteq> IP (NetworkParameters target)))"
proof -
  have a: "\<forall>rule\<in>set rules. checkIPInSubnet e subnet (DstIP rule) = Inr False"
    using assms prepareFirewallRulesLoop_outside [of e manager subnet ip allowConnection "[]" rules]
    by (simp add: prepareFirewallRules_def)
  then show ?thesis by auto
qed


theorem firewall_rules_outside_subnet_witness:
  "prepareFirewallRules envOK managerX ''172.18.0.0/16'' ''172.18.0.2'' [''svc/80'', ''none/80''] =
     Inr [\<lparr>DstIP = ''172.17.0.2'', DstPort = ''80'', Proto = ''tcp'', SrcIP = ''172.18.0.2''\<rparr>] \<and>
   checkIPInSubnet envOK ''172.18.0.0/16'' ''172.17.0.2'' = Inr False"
proof -
  have h: "prepareFirewallRules envOK managerX ''172.18.0.0/16'' ''172.18.0.2''
      [''svc/80'', ''none/80''] =
     Inr [\<lparr>DstIP = ''172.17.0.2'', DstPort = ''80'', Proto = ''tcp'', SrcIP = ''172.18.0.2''\<rparr>]"
    by code_simp
  from firewall_rules_outside_subnet [OF h, THEN conjunct1]
  have "checkIPInSubnet envOK ''172.18.0.0/16'' ''172.17.0.2'' = Inr False"
    by simp
  with h show ?thesis by (intro conjI)
qed

lemma checkIPInSubnet_not_sentinel: "checkIPInSubnet e subnet ip \<noteq> Inl RuleNotFound"
  by (simp add: checkIPInSubnet_def split: option.splits)

lemma instancesLoop_not_sentinel:
  "instancesLoop e serviceID subnet port protocol ip instances \<noteq> Some (Inl RuleNotFound)"
proof (induction instances)
  case Nil
  then show ?case by simp
next
  case (Cons x instances)
  obtain ident info where x: "x = (ident, info)" by (cases x)
  show ?case
  proof (cases "checkIPInSubnet e subnet (IP (NetworkParameters info))")
    case (Inl err)
    with checkIPInSubnet_not_sentinel [of e subnet "IP (NetworkParameters info)"]
    have "err \<noteq> RuleNotFound" by auto
    with Inl Cons x show ?thesis by simp
  next
    case (Inr same)
    with Cons x show ?thesis by simp
  qed
qed

lemma networksLoop_not_sentinel:
  "networksLoop e serviceID subnet port protocol ip networks \<noteq> Some (Inl RuleNotFound)"
  by (induction networks) (auto split: option.splits simp: instancesLoop_not_sentinel)















subsection \<open>Preparing an instance\<close>






text \<open>
  Claim C1 at a concrete input: \<open>svc0\<close> is bound under \<open>netX\<close> and is prepared on \<open>netY\<close>.
  The call succeeds and returns the parameters of \<open>netY\<close>, but the binding under \<open>netX\<close>
  stays, so that the identity is in two networks, and the IP \<open>172.17.0.2\<close> stays in use
  in the pool of \<open>netX\<close>.
\<close>

theorem instance_move_keeps_old_binding:
  "snd (snd (getNetworkParametersToCache managerX svc0)) \<and>
   fst (snd (getNetworkParametersToCache managerX svc0)) = ''netX'' \<and>
   snd (fst (PrepareInstanceNetworkParameters envOK svc0 ''netY'' params80 managerX)) = None \<and>
   NetworkID (fst (fst (PrepareInstanceNetworkParameters envOK svc0 ''netY'' params80 managerX))) = ''netY'' \<and>
   map (\<lambda>(networkID, instances). (networkID, map fst instances))
     (instancesData (snd (PrepareInstanceNetworkParameters envOK svc0 ''netY'' params80 managerX))) =
     [(''netX'', [svc0]), (''netY'', [svc0])] \<and>
   map_of (usedIPSubnets (ipamSubnet
       (snd (PrepareInstanceNetworkParameters envOK svc0 ''netY'' params80 managerX)))) ''netX'' =
     Some (net17, [[172, 17, 0, 2], [172, 17, 0, 1]]) \<and>
   map_of (usedIPSubnets (ipamSubnet managerX)) ''netX'' =
     Some (net17, [[172, 17, 0, 2], [172, 17, 0, 1]])"
  by code_simp


subsection \<open>Provider networks\<close>

text \<open>
  Claim C7 at a concrete input: the storage refuses \<^verbatim>\<open>AddNetworkInfo\<close> while node \<open>nodeA\<close>
  is given the provider network \<open>netX\<close> on the fresh manager. The call returns the
  storage's error and no binding is made, but the subnet and the IP that
  \<^verbatim>\<open>setupNetworkParameters\<close> took from the allocator stay taken. In \<^verbatim>\<open>createNetwork\<close>,
  when the storage refuses \<^verbatim>\<open>AddNetworkInstanceInfo\<close>, the deferred function gives the IP
  back: the manager is as before the call.
\<close>

theorem provider_setup_leaks_allocation:
  "UpdateProviderNetwork envStorageDown [''netX''] ''nodeA'' manager0 =
   (Some (External ''storage''),
    manager0\<lparr>ipamSubnet := ipam0\<lparr>usedIPSubnets := [(''netX'', net17, [[172, 17, 0, 1]])]\<rparr>\<rparr>) \<and>
   usedIPSubnets (ipamSubnet manager0) = [] \<and>
   createNetwork (envOK\<lparr>AddNetworkInstanceInfo := (\<lambda>info. Some (External ''storage''))\<rparr>)
       \<lparr>ServiceID = ''client'', SubjectID = ''sub'', Instance = 1\<rparr> ''netY'' params80 managerX =
     ((\<lparr>NetworkID = ''netY'', Subnet = ''172.18.0.0/16'', IP = ''172.18.0.2'', VlanID = 0,
        DNSServers = [''10.0.0.1''], FirewallRules = []\<rparr>, Some (External ''storage'')),
      managerX)"
  by code_simp

subsection \<open>The VLAN of a provider network\<close>

lemma set_update_subset: "set (AList.update k v al) \<subseteq> insert (k, v) (set al)"
  by (induction al) auto

lemma set_delete_subset: "set (AList.delete k al) \<subseteq> set al"
  by (auto simp: AList.delete_eq)

lemma set_map_default_cases:
  "entry \<in> set (AList.map_default k v f al) \<Longrightarrow>
   entry \<in> set al \<or> entry = (k, v) \<and> k \<notin> fst ` set al \<or> (\<exists>old. (k, old) \<in> set al \<and> entry = (k, f old))"
  by (induction al) (auto split: if_splits)

lemma vlanStable_update:
  "vlanStable pn \<Longrightarrow> entryVlanOK (k, v) \<Longrightarrow> vlanStable (AList.update k v pn)"
  unfolding vlanStable_def using set_update_subset [of k v pn]
  by (auto simp: distinct_update)

lemma vlanStable_delete: "vlanStable pn \<Longrightarrow> vlanStable (AList.delete k pn)"
  unfolding vlanStable_def using set_delete_subset [of k pn]
  by (auto simp: distinct_delete)

lemma entryVlanOK_filter: "entryVlanOK (k, v) \<Longrightarrow> entryVlanOK (k, filter P v)"
  by (auto simp: entryVlanOK_def)

lemma deleteNetworkParametersFromCache_providerNetworks [simp]:
  "providerNetworks (deleteNetworkParametersFromCache networkID instanceIdent ip m) = providerNetworks m"
  by (simp add: deleteNetworkParametersFromCache_def)

lemma teardown_providerNetworks:
  "providerNetworks (fold (\<lambda>(instanceIdent, netInfo) m.
       snd (removeInstanceNetworkParameters e networkID instanceIdent (g netInfo) m)) xs m) =
   providerNetworks m"
  by (induction xs arbitrary: m) (auto simp: removeInstanceNetworkParameters_def)

lemma removeProviderNetwork_providerNetworks:
  "providerNetworks (removeProviderNetwork e providers nodeID (k, v) m) =
     (let valid = filter (\<lambda>info. NodeID info \<noteq> []) v;
          filtered = filter (\<lambda>info. NodeID info \<noteq> nodeID) valid
      in if k \<in> set providers \<and> valid \<noteq> [] then AList.update k valid (providerNetworks m)
         else if filtered \<noteq> [] then AList.update k filtered (providerNetworks m)
         else AList.delete k (AList.update k filtered (providerNetworks m)))"
  by (simp add: removeProviderNetwork_def Let_def teardown_providerNetworks)

lemma entryVlanOK_Nil: "entryVlanOK (k, [])"
  by (simp add: entryVlanOK_def)

lemma removeProviderNetwork_vlanStable:
  assumes "vlanStable (providerNetworks m)" "entryVlanOK (k, v)"
  shows "vlanStable (providerNetworks (removeProviderNetwork e providers nodeID (k, v) m))"
proof -
  let ?valid = "filter (\<lambda>info. NodeID info \<noteq> []) v"
  let ?filtered = "filter (\<lambda>info. NodeID info \<noteq> nodeID) ?valid"
  have v: "entryVlanOK (k, ?valid)"
    using assms(2) by (rule entryVlanOK_filter)
  then have f: "entryVlanOK (k, ?filtered)"
    by (rule entryVlanOK_filter)
  have a: "vlanStable (AList.update k ?valid (providerNetworks m))"
    using assms(1) v by (rule vlanStable_update)
  have b: "vlanStable (AList.update k ?filtered (providerNetworks m))"
    using assms(1) f by (rule vlanStable_update)
  have c: "vlanStable (AList.delete k (AList.update k ?filtered (providerNetworks m)))"
    using b by (rule vlanStable_delete)
  show ?thesis
    unfolding removeProviderNetwork_providerNetworks Let_def
    using a b c by (simp only: split: if_splits) simp
qed

lemma fold_invariant:
  assumes "P m" "\<forall>x\<in>set xs. Q x" "\<And>x m. Q x \<Longrightarrow> P m \<Longrightarrow> P (f x m)"
  shows "P (fold f xs m)"
  using assms(1,2) by (induction xs arbitrary: m) (auto intro: assms(3))

lemma removeProviderNetworks_vlanStable:
  assumes "vlanStable (providerNetworks m)"
  shows "vlanStable (providerNetworks (removeProviderNetworks e providers nodeID m))"
  unfolding removeProviderNetworks_def
proof (rule fold_invariant [where P = "\<lambda>m. vlanStable (providerNetworks m)" and Q = entryVlanOK])
  show "vlanStable (providerNetworks m)" by fact
  show "\<forall>x\<in>set (providerNetworks m). entryVlanOK x"
    using assms by (simp add: vlanStable_def)
  fix x and m' :: NetworkManager
  assume "entryVlanOK x" "vlanStable (providerNetworks m')"
  then show "vlanStable (providerNetworks (removeProviderNetwork e providers nodeID x m'))"
    by (cases x) (simp add: removeProviderNetwork_vlanStable)
qed

lemma setupNetworkParameters_cases:
  "setupNetworkParameters e providerID np m = (r, m') \<Longrightarrow>
   (\<exists>err. r = Inl err \<and> providerNetworks m' = providerNetworks m) \<or>
   (\<exists>subnet ip. r = Inr (np\<lparr>NetworkParameters' := (NetworkParameters' np)\<lparr>Subnet := subnet, IP := ip\<rparr>\<rparr>) \<and>
      providerNetworks m' =
        AList.map_default providerID
          [np\<lparr>NetworkParameters' := (NetworkParameters' np)\<lparr>Subnet := subnet, IP := ip\<rparr>\<rparr>]
          (\<lambda>networks. networks @ [np\<lparr>NetworkParameters' := (NetworkParameters' np)\<lparr>Subnet := subnet, IP := ip\<rparr>\<rparr>])
          (providerNetworks m))"
proof -
  assume a: "setupNetworkParameters e providerID np m = (r, m')"
  obtain res ipam where p: "prepareSubnet providerID (ipamSubnet m) = (res, ipam)"
    by (cases "prepareSubnet providerID (ipamSubnet m)")
  show ?thesis
  proof (cases res)
    case (Inl err)
    with a p show ?thesis by (auto simp: setupNetworkParameters_def)
  next
    case (Inr si)
    obtain subnet ip where si: "si = (subnet, ip)" by (cases si)
    let ?np1 = "np\<lparr>NetworkParameters' := (NetworkParameters' np)
        \<lparr>Subnet := IPNet_String subnet, IP := IP_String ip\<rparr>\<rparr>"
    show ?thesis
    proof (cases "AddNetworkInfo e ?np1")
      case (Some err)
      with a p Inr si show ?thesis by (auto simp: setupNetworkParameters_def Let_def)
    next
      case None
      with a p Inr si have "r = Inr ?np1 \<and> providerNetworks m' =
          AList.map_default providerID [?np1] (\<lambda>networks. networks @ [?np1]) (providerNetworks m)"
        by (auto simp: setupNetworkParameters_def Let_def)
      then show ?thesis by blast
    qed
  qed
qed

lemma vlanStable_map_default:
  assumes "vlanStable pn"
    and "NetworkID (NetworkParameters' b) = k"
    and "\<forall>old. (k, old) \<in> set pn \<longrightarrow> (\<forall>b'\<in>set old. VlanID (NetworkParameters' b') = VlanID (NetworkParameters' b))"
  shows "vlanStable (AList.map_default k [b] (\<lambda>networks. networks @ [b]) pn)"
  unfolding vlanStable_def
proof (intro conjI ballI)
  show "distinct (map fst (AList.map_default k [b] (\<lambda>networks. networks @ [b]) pn))"
    using assms(1) by (simp add: vlanStable_def distinct_map_default)
next
  fix entry
  assume "entry \<in> set (AList.map_default k [b] (\<lambda>networks. networks @ [b]) pn)"
  from set_map_default_cases [OF this]
  consider "entry \<in> set pn" | "entry = (k, [b])" | old where "(k, old) \<in> set pn" "entry = (k, old @ [b])"
    by blast
  then show "entryVlanOK entry"
  proof cases
    case 1
    with assms(1) show ?thesis by (simp add: vlanStable_def)
  next
    case 2
    with assms(2) show ?thesis by (simp add: entryVlanOK_def)
  next
    case 3
    from 3(1) assms(1) have "entryVlanOK (k, old)" by (auto simp: vlanStable_def)
    moreover from 3(1) assms(3)
    have "\<forall>b'\<in>set old. VlanID (NetworkParameters' b') = VlanID (NetworkParameters' b)" by blast
    ultimately show ?thesis using 3(2) assms(2)
      by (auto simp: entryVlanOK_def)
  qed
qed

lemma createProviderNetwork_vlanStable:
  assumes "createProviderNetwork e providerID nodeID m = (r, m')"
    and "vlanStable (providerNetworks m)" "map_of (providerNetworks m) providerID = None"
  shows "vlanStable (providerNetworks m')"
proof (cases "GetVlanID e providerID")
  case (Inl err)
  with assms show ?thesis by (simp add: createProviderNetwork_def)
next
  case (Inr vlanID)
  let ?np = "\<lparr>NetworkParameters' = zeroNetworkParameters\<lparr>NetworkID := providerID, VlanID := vlanID\<rparr>,
               NodeID = nodeID\<rparr>"
  obtain r1 m1 where s: "setupNetworkParameters e providerID ?np m = (r1, m1)"
    by (cases "setupNetworkParameters e providerID ?np m")
  with assms(1) Inr have m': "m' = m1"
    by (auto simp: createProviderNetwork_def split: sum.splits)
  from assms(3) have nokey: "\<forall>old. (providerID, old) \<notin> set (providerNetworks m)"
    by (auto simp: map_of_eq_None_iff image_iff)
  from setupNetworkParameters_cases [OF s] show ?thesis
  proof (elim disjE exE conjE)
    fix err assume "providerNetworks m1 = providerNetworks m"
    with assms(2) m' show ?thesis by simp
  next
    fix subnet ip
    assume pn: "providerNetworks m1 =
        AList.map_default providerID
          [?np\<lparr>NetworkParameters' := (NetworkParameters' ?np)\<lparr>Subnet := subnet, IP := ip\<rparr>\<rparr>]
          (\<lambda>networks. networks @ [?np\<lparr>NetworkParameters' := (NetworkParameters' ?np)\<lparr>Subnet := subnet, IP := ip\<rparr>\<rparr>])
          (providerNetworks m)"
    show ?thesis
      unfolding m' pn
      by (rule vlanStable_map_default) (use assms(2) nokey in simp_all)
  qed
qed

lemma entryVlanOK_NetworkID:
  "entryVlanOK (k, v) \<Longrightarrow> b \<in> set v \<Longrightarrow> NetworkID (NetworkParameters' b) = k"
  unfolding entryVlanOK_def fst_conv snd_conv by blast

lemma entryVlanOK_VlanID:
  "entryVlanOK (k, v) \<Longrightarrow> b \<in> set v \<Longrightarrow> b' \<in> set v \<Longrightarrow>
   VlanID (NetworkParameters' b) = VlanID (NetworkParameters' b')"
  unfolding entryVlanOK_def fst_conv snd_conv by blast

lemma updateProviderNetworkForNode_vlanStable:
  assumes "updateProviderNetworkForNode e providerID nodeID (NetworkParameters' first) m = (r, m')"
    and "vlanStable (providerNetworks m)"
    and "map_of (providerNetworks m) providerID = Some networks" "first \<in> set networks"
  shows "vlanStable (providerNetworks m')"
proof -
  let ?np = "\<lparr>NetworkParameters' = NetworkParameters' first, NodeID = nodeID\<rparr>"
  obtain r1 m1 where s: "setupNetworkParameters e providerID ?np m = (r1, m1)"
    by (cases "setupNetworkParameters e providerID ?np m")
  with assms(1) have m': "m' = m1"
    by (auto simp: updateProviderNetworkForNode_def split: sum.splits)
  from assms(3) have mem: "(providerID, networks) \<in> set (providerNetworks m)"
    by (rule map_of_SomeD)
  with assms(2) have ok: "entryVlanOK (providerID, networks)"
    by (auto simp: vlanStable_def)
  have uniq: "\<forall>old. (providerID, old) \<in> set (providerNetworks m) \<longrightarrow> old = networks"
  proof (intro allI impI)
    fix old assume "(providerID, old) \<in> set (providerNetworks m)"
    with assms(2) have "map_of (providerNetworks m) providerID = Some old"
      by (simp add: vlanStable_def)
    with assms(3) show "old = networks" by simp
  qed
  from setupNetworkParameters_cases [OF s] show ?thesis
  proof (elim disjE exE conjE)
    fix err assume "providerNetworks m1 = providerNetworks m"
    with assms(2) m' show ?thesis by simp
  next
    fix subnet ip
    assume pn: "providerNetworks m1 =
        AList.map_default providerID
          [?np\<lparr>NetworkParameters' := (NetworkParameters' ?np)\<lparr>Subnet := subnet, IP := ip\<rparr>\<rparr>]
          (\<lambda>networks. networks @ [?np\<lparr>NetworkParameters' := (NetworkParameters' ?np)\<lparr>Subnet := subnet, IP := ip\<rparr>\<rparr>])
          (providerNetworks m)"
    show ?thesis
      unfolding m' pn
    proof (rule vlanStable_map_default)
      show "vlanStable (providerNetworks m)" by fact
      show "NetworkID (NetworkParameters'
              (?np\<lparr>NetworkParameters' := (NetworkParameters' ?np)\<lparr>Subnet := subnet, IP := ip\<rparr>\<rparr>)) = providerID"
        using entryVlanOK_NetworkID [OF ok assms(4)] by simp
      show "\<forall>old. (providerID, old) \<in> set (providerNetworks m) \<longrightarrow>
          (\<forall>b'\<in>set old. VlanID (NetworkParameters' b') =
             VlanID (NetworkParameters'
               (?np\<lparr>NetworkParameters' := (NetworkParameters' ?np)\<lparr>Subnet := subnet, IP := ip\<rparr>\<rparr>)))"
      proof (intro allI impI ballI)
        fix old b'
        assume "(providerID, old) \<in> set (providerNetworks m)" "b' \<in> set old"
        with uniq have "b' \<in> set networks" by blast
        from entryVlanOK_VlanID [OF ok this assms(4)]
        show "VlanID (NetworkParameters' b') =
             VlanID (NetworkParameters'
               (?np\<lparr>NetworkParameters' := (NetworkParameters' ?np)\<lparr>Subnet := subnet, IP := ip\<rparr>\<rparr>))"
          by simp
      qed
    qed
  qed
qed

lemma addProviderNetworksLoop_vlanStable:
  "vlanStable (providerNetworks m) \<Longrightarrow>
   vlanStable (providerNetworks (snd (addProviderNetworksLoop e nodeID providers acc m)))"
proof (induction providers arbitrary: acc m)
  case Nil
  then show ?case by simp
next
  case (Cons providerID rest)
  show ?case
  proof (cases "map_of (providerNetworks m) providerID")
    case None
    obtain r m1 where c: "createProviderNetwork e providerID nodeID m = (r, m1)"
      by (cases "createProviderNetwork e providerID nodeID m")
    from createProviderNetwork_vlanStable [OF c Cons.prems None]
    have "vlanStable (providerNetworks m1)" .
    with Cons.IH None c show ?thesis
      by (cases r) simp_all
  next
    case (Some networks)
    show ?thesis
    proof (cases "find (\<lambda>networkParameter. NodeID networkParameter = nodeID) networks")
      case (Some networkParameter)
      with \<open>map_of (providerNetworks m) providerID = Some networks\<close> Cons show ?thesis by simp
    next
      case None
      show ?thesis
      proof (cases networks)
        case Nil
        with None \<open>map_of (providerNetworks m) providerID = Some networks\<close> Cons.prems
        show ?thesis by simp
      next
        case (Cons first others)
        obtain r m1 where u: "updateProviderNetworkForNode e providerID nodeID
            (NetworkParameters' first) m = (r, m1)"
          by (cases "updateProviderNetworkForNode e providerID nodeID (NetworkParameters' first) m")
        from Cons have "first \<in> set networks" by simp
        from updateProviderNetworkForNode_vlanStable
          [OF u Cons.prems \<open>map_of (providerNetworks m) providerID = Some networks\<close> this]
        have "vlanStable (providerNetworks m1)" .
        with Cons.IH None \<open>map_of (providerNetworks m) providerID = Some networks\<close> Cons u
        show ?thesis
          by (cases r) simp_all
      qed
    qed
  qed
qed

lemma UpdateProviderNetwork_vlanStable:
  assumes "vlanStable (providerNetworks m)"
  shows "vlanStable (providerNetworks (snd (UpdateProviderNetwork e providers nodeID m)))"
proof -
  have "vlanStable (providerNetworks (snd (addProviderNetworks e providers nodeID
      (removeProviderNetworks e providers nodeID m))))"
    unfolding addProviderNetworks_def
    by (intro addProviderNetworksLoop_vlanStable removeProviderNetworks_vlanStable assms)
  then show ?thesis
    by (auto simp: UpdateProviderNetwork_def split: prod.splits option.splits)
qed

lemma UpdateProviderNetworkSeq_vlanStable:
  "vlanStable (providerNetworks m) \<Longrightarrow>
   vlanStable (providerNetworks (UpdateProviderNetworkSeq calls m))"
  unfolding UpdateProviderNetworkSeq_def
  by (induction calls arbitrary: m) (auto intro: UpdateProviderNetwork_vlanStable)

lemma vlanStable_same:
  assumes "vlanStable pn" "b1 \<in> set (concat (map snd pn))" "b2 \<in> set (concat (map snd pn))"
    "NetworkID (NetworkParameters' b1) = NetworkID (NetworkParameters' b2)"
  shows "VlanID (NetworkParameters' b1) = VlanID (NetworkParameters' b2)"
proof -
  from assms(2,3) obtain k1 v1 k2 v2 where
    e: "(k1, v1) \<in> set pn" "b1 \<in> set v1" "(k2, v2) \<in> set pn" "b2 \<in> set v2"
    by auto
  with assms(1) have ok: "entryVlanOK (k1, v1)" "entryVlanOK (k2, v2)"
    by (auto simp: vlanStable_def)
  with e assms(4) have "k1 = k2" by (auto simp: entryVlanOK_def)
  moreover from assms(1) have "distinct (map fst pn)"
    by (simp add: vlanStable_def)
  ultimately have "v1 = v2"
    using e(1,3) by (blast dest: eq_key_imp_eq_value)
  with ok(2) e(2,4) show ?thesis by (blast intro: entryVlanOK_VlanID)
qed

lemma createProviderNetwork_vlan:
  assumes "fst (createProviderNetwork e providerID nodeID m) = Inr created"
  shows "GetVlanID e providerID = Inr (VlanID created)"
proof (cases "GetVlanID e providerID")
  case (Inl err)
  with assms show ?thesis by (simp add: createProviderNetwork_def)
next
  case (Inr vlanID)
  let ?np = "\<lparr>NetworkParameters' = zeroNetworkParameters\<lparr>NetworkID := providerID, VlanID := vlanID\<rparr>,
               NodeID = nodeID\<rparr>"
  obtain r1 m1 where s: "setupNetworkParameters e providerID ?np m = (r1, m1)"
    by (cases "setupNetworkParameters e providerID ?np m")
  with assms Inr obtain b where r1: "r1 = Inr b" and c: "created = NetworkParameters' b"
    by (cases r1) (auto simp: createProviderNetwork_def)
  from setupNetworkParameters_cases [OF s] r1
  have "VlanID (NetworkParameters' b) = vlanID" by auto
  with c Inr show ?thesis by simp
qed

lemma updateProviderNetworkForNode_vlan:
  assumes "fst (updateProviderNetworkForNode e providerID nodeID existingNetwork m) = Inr copied"
  shows "VlanID copied = VlanID existingNetwork"
proof -
  let ?np = "\<lparr>NetworkParameters' = existingNetwork, NodeID = nodeID\<rparr>"
  obtain r1 m1 where s: "setupNetworkParameters e providerID ?np m = (r1, m1)"
    by (cases "setupNetworkParameters e providerID ?np m")
  with assms obtain b where r1: "r1 = Inr b" and c: "copied = NetworkParameters' b"
    by (cases r1) (auto simp: updateProviderNetworkForNode_def)
  from setupNetworkParameters_cases [OF s] r1
  have "VlanID (NetworkParameters' b) = VlanID existingNetwork" by auto
  with c show ?thesis by simp
qed

lemma setupNetworkParameters_no_vlan_source:
  "setupNetworkParameters (e\<lparr>GetVlanID := vlanSource\<rparr>) providerID np m =
   setupNetworkParameters e providerID np m"
  by (simp add: setupNetworkParameters_def Let_def split: prod.splits sum.splits option.splits)

lemma updateProviderNetworkForNode_no_vlan_source:
  "updateProviderNetworkForNode (e\<lparr>GetVlanID := vlanSource\<rparr>) providerID nodeID existingNetwork m =
   updateProviderNetworkForNode e providerID nodeID existingNetwork m"
  by (simp add: updateProviderNetworkForNode_def setupNetworkParameters_no_vlan_source)


text \<open>
  Claim C3: in every state that a run of \<^verbatim>\<open>UpdateProviderNetwork\<close> calls reaches from a
  manager without provider networks, two bindings with the same network id have the same
  VLAN. A binding made by \<^verbatim>\<open>createProviderNetwork\<close>, the first of its network, has the
  VLAN that \<^verbatim>\<open>GetVlanID\<close> answered; a binding made by \<^verbatim>\<open>updateProviderNetworkForNode\<close>
  for a further node has the VLAN of the existing binding and is made without asking
  \<^verbatim>\<open>GetVlanID\<close>.
\<close>

theorem vlan_same_within_network:
  "(providerNetworks manager = [] \<longrightarrow>
      (\<forall>b1\<in>set (concat (map snd (providerNetworks (UpdateProviderNetworkSeq calls manager)))).
       \<forall>b2\<in>set (concat (map snd (providerNetworks (UpdateProviderNetworkSeq calls manager)))).
         NetworkID (NetworkParameters' b1) = NetworkID (NetworkParameters' b2) \<longrightarrow>
         VlanID (NetworkParameters' b1) = VlanID (NetworkParameters' b2))) \<and>
   (fst (createProviderNetwork e providerID nodeID m) = Inr created \<longrightarrow>
      GetVlanID e providerID = Inr (VlanID created)) \<and>
   (fst (updateProviderNetworkForNode e providerID nodeID existingNetwork m) = Inr copied \<longrightarrow>
      VlanID copied = VlanID existingNetwork) \<and>
   updateProviderNetworkForNode (e\<lparr>GetVlanID := vlanSource\<rparr>) providerID nodeID existingNetwork m =
     updateProviderNetworkForNode e providerID nodeID existingNetwork m"
proof (intro conjI impI ballI)
  fix b1 b2
  assume empty: "providerNetworks manager = []"
    and b: "b1 \<in> set (concat (map snd (providerNetworks (UpdateProviderNetworkSeq calls manager))))"
      "b2 \<in> set (concat (map snd (providerNetworks (UpdateProviderNetworkSeq calls manager))))"
    and n: "NetworkID (NetworkParameters' b1) = NetworkID (NetworkParameters' b2)"
  from empty have "vlanStable (providerNetworks manager)"
    by (simp add: vlanStable_def)
  then have "vlanStable (providerNetworks (UpdateProviderNetworkSeq calls manager))"
    by (rule UpdateProviderNetworkSeq_vlanStable)
  from vlanStable_same [OF this b n]
  show "VlanID (NetworkParameters' b1) = VlanID (NetworkParameters' b2)" .
next
  assume "fst (createProviderNetwork e providerID nodeID m) = Inr created"
  then show "GetVlanID e providerID = Inr (VlanID created)"
    by (rule createProviderNetwork_vlan)
next
  assume "fst (updateProviderNetworkForNode e providerID nodeID existingNetwork m) = Inr copied"
  then show "VlanID copied = VlanID existingNetwork"
    by (rule updateProviderNetworkForNode_vlan)
next
  show "updateProviderNetworkForNode (e\<lparr>GetVlanID := vlanSource\<rparr>) providerID nodeID existingNetwork m =
     updateProviderNetworkForNode e providerID nodeID existingNetwork m"
    by (rule updateProviderNetworkForNode_no_vlan_source)
qed

theorem vlan_same_within_network_witness:
  "providerNetworks manager0 = [] \<and>
   map (\<lambda>b. (NodeID b, VlanID (NetworkParameters' b)))
     (concat (map snd (providerNetworks (UpdateProviderNetworkSeq
        [(envOK, [''netX''], ''nodeA''),
         (envOK\<lparr>GetVlanID := (\<lambda>networkID. Inr 9)\<rparr>, [''netX''], ''nodeB'')] manager0)))) =
     [(''nodeA'', 7), (''nodeB'', 7)] \<and>
   fst (createProviderNetwork envOK ''netX'' ''nodeA'' manager0) =
     Inr \<lparr>NetworkID = ''netX'', Subnet = ''172.17.0.0/16'', IP = ''172.17.0.1'', VlanID = 7,
           DNSServers = [], FirewallRules = []\<rparr> \<and>
   GetVlanID envOK ''netX'' = Inr 7 \<and>
   fst (updateProviderNetworkForNode (envOK\<lparr>GetVlanID := (\<lambda>networkID. Inr 9)\<rparr>) ''netX'' ''nodeB''
      \<lparr>NetworkID = ''netX'', Subnet = ''172.17.0.0/16'', IP = ''172.17.0.1'', VlanID = 7,
        DNSServers = [], FirewallRules = []\<rparr>
      (snd (createProviderNetwork envOK ''netX'' ''nodeA'' manager0))) =
     Inr \<lparr>NetworkID = ''netX'', Subnet = ''172.17.0.0/16'', IP = ''172.17.0.2'', VlanID = 7,
           DNSServers = [], FirewallRules = []\<rparr>"
proof -
  have a: "providerNetworks manager0 = []"
    by (simp add: manager0_def)
  have b: "map (\<lambda>b. (NodeID b, VlanID (NetworkParameters' b)))
     (concat (map snd (providerNetworks (UpdateProviderNetworkSeq
        [(envOK, [''netX''], ''nodeA''),
         (envOK\<lparr>GetVlanID := (\<lambda>networkID. Inr 9)\<rparr>, [''netX''], ''nodeB'')] manager0)))) =
     [(''nodeA'', 7), (''nodeB'', 7)]"
    by code_simp
  have c: "fst (createProviderNetwork envOK ''netX'' ''nodeA'' manager0) =
     Inr \<lparr>NetworkID = ''netX'', Subnet = ''172.17.0.0/16'', IP = ''172.17.0.1'', VlanID = 7,
           DNSServers = [], FirewallRules = []\<rparr>"
    by code_simp
  have d: "fst (updateProviderNetworkForNode (envOK\<lparr>GetVlanID := (\<lambda>networkID. Inr 9)\<rparr>) ''netX'' ''nodeB''
      \<lparr>NetworkID = ''netX'', Subnet = ''172.17.0.0/16'', IP = ''172.17.0.1'', VlanID = 7,
        DNSServers = [], FirewallRules = []\<rparr>
      (snd (createProviderNetwork envOK ''netX'' ''nodeA'' manager0))) =
     Inr \<lparr>NetworkID = ''netX'', Subnet = ''172.17.0.0/16'', IP = ''172.17.0.2'', VlanID = 7,
           DNSServers = [], FirewallRules = []\<rparr>"
    by code_simp
  from vlan_same_within_network
    [of manager0 _ envOK "''netX''" "''nodeA''" manager0
        "\<lparr>NetworkID = ''netX'', Subnet = ''172.17.0.0/16'', IP = ''172.17.0.1'', VlanID = 7,
          DNSServers = [], FirewallRules = []\<rparr>"] c
  have v: "GetVlanID envOK ''netX'' = Inr 7"
    by simp
  from a b c v d show ?thesis by (intro conjI)
qed


subsection \<open>Reconciling twice\<close>

lemma set_update_distinct:
  "distinct (map fst al) \<Longrightarrow> set (AList.update k v al) \<subseteq> insert (k, v) {e \<in> set al. fst e \<noteq> k}"
  by (induction al) (auto simp: image_iff)

lemma set_delete_eq: "set (AList.delete k al) = {e \<in> set al. fst e \<noteq> k}"
  by (auto simp: AList.delete_eq)

lemma removeProviderNetwork_entries:
  assumes "distinct (map fst (providerNetworks m))"
  shows "distinct (map fst (providerNetworks (removeProviderNetwork e providers nodeID (k, v) m))) \<and>
     (\<forall>entry\<in>set (providerNetworks (removeProviderNetwork e providers nodeID (k, v) m)).
        (entry \<in> set (providerNetworks m) \<and> fst entry \<noteq> k) \<or>
        (fst entry = k \<and> entryReconciled providers nodeID entry))"
proof -
  let ?valid = "filter (\<lambda>info. NodeID info \<noteq> []) v"
  let ?filtered = "filter (\<lambda>info. NodeID info \<noteq> nodeID) ?valid"
  let ?pn = "providerNetworks m"
  have u: "\<And>w. set (AList.update k w ?pn) \<subseteq> insert (k, w) {e \<in> set ?pn. fst e \<noteq> k}"
    using assms by (rule set_update_distinct)
  have du: "\<And>w. distinct (map fst (AList.update k w ?pn))"
    using assms by (rule distinct_update)
  show ?thesis
  proof (cases "k \<in> set providers \<and> ?valid \<noteq> []")
    case True
    then have pn: "providerNetworks (removeProviderNetwork e providers nodeID (k, v) m) =
        AList.update k ?valid ?pn"
      by (simp add: removeProviderNetwork_providerNetworks Let_def)
    from True have "entryReconciled providers nodeID (k, ?valid)"
      by (simp add: entryReconciled_def)
    with u [of ?valid] du [of ?valid] show ?thesis
      unfolding pn by auto
  next
    case False
    show ?thesis
    proof (cases "?filtered \<noteq> []")
      case True
      with False have pn: "providerNetworks (removeProviderNetwork e providers nodeID (k, v) m) =
          AList.update k ?filtered ?pn"
        by (auto simp add: removeProviderNetwork_providerNetworks Let_def simp del: filter_filter)
      from True have "entryReconciled providers nodeID (k, ?filtered)"
        by (simp add: entryReconciled_def del: filter_filter)
      with u [of ?filtered] du [of ?filtered] show ?thesis
        unfolding pn by auto
    next
      case nf: False
      with False have pn: "providerNetworks (removeProviderNetwork e providers nodeID (k, v) m) =
          AList.delete k (AList.update k ?filtered ?pn)"
        by (auto simp add: removeProviderNetwork_providerNetworks Let_def simp del: filter_filter)
      have "distinct (map fst (AList.delete k (AList.update k ?filtered ?pn)))"
        using du [of ?filtered] by (rule distinct_delete)
      moreover have "set (AList.delete k (AList.update k ?filtered ?pn)) \<subseteq> {e \<in> set ?pn. fst e \<noteq> k}"
        using u [of ?filtered] by (auto simp: set_delete_eq)
      ultimately show ?thesis
        unfolding pn by auto
    qed
  qed
qed

lemma remove_fold_reconciled:
  assumes "distinct (map fst xs)" "distinct (map fst (providerNetworks m))"
    and "\<forall>entry\<in>set (providerNetworks m). entryReconciled providers nodeID entry \<or> entry \<in> set xs"
  shows "reconciled providers nodeID
     (providerNetworks (fold (removeProviderNetwork e providers nodeID) xs m))"
  using assms
proof (induction xs arbitrary: m)
  case Nil
  then show ?case by (auto simp: reconciled_def)
next
  case (Cons x xs)
  obtain k v where x: "x = (k, v)" by (cases x)
  let ?m1 = "removeProviderNetwork e providers nodeID (k, v) m"
  from removeProviderNetwork_entries [OF Cons.prems(2), of e providers nodeID k v]
  have d: "distinct (map fst (providerNetworks ?m1))"
    and en: "\<forall>entry\<in>set (providerNetworks ?m1).
        (entry \<in> set (providerNetworks m) \<and> fst entry \<noteq> k) \<or>
        (fst entry = k \<and> entryReconciled providers nodeID entry)"
    by blast+
  have "\<forall>entry\<in>set (providerNetworks ?m1). entryReconciled providers nodeID entry \<or> entry \<in> set xs"
  proof
    fix entry assume "entry \<in> set (providerNetworks ?m1)"
    with en consider "entry \<in> set (providerNetworks m)" "fst entry \<noteq> k"
      | "entryReconciled providers nodeID entry" by blast
    then show "entryReconciled providers nodeID entry \<or> entry \<in> set xs"
    proof cases
      case 1
      with Cons.prems(3) x show ?thesis by auto
    next
      case 2
      then show ?thesis by simp
    qed
  qed
  moreover from Cons.prems(1) have "distinct (map fst xs)" by simp
  ultimately have "reconciled providers nodeID
     (providerNetworks (fold (removeProviderNetwork e providers nodeID) xs ?m1))"
    using d by (intro Cons.IH)
  with x show ?case by simp
qed

lemma removeProviderNetworks_reconciled:
  assumes "distinct (map fst (providerNetworks m))"
  shows "reconciled providers nodeID (providerNetworks (removeProviderNetworks e providers nodeID m))"
  unfolding removeProviderNetworks_def
  by (rule remove_fold_reconciled) (use assms in auto)

lemma setupNetworkParameters_Inr:
  assumes "setupNetworkParameters e providerID np m = (Inr b, m')"
  shows "NodeID b = NodeID np \<and>
     providerNetworks m' =
       AList.map_default providerID [b] (\<lambda>networks. networks @ [b]) (providerNetworks m)"
  using setupNetworkParameters_cases [OF assms] by auto

lemma map_of_map_default_same:
  "map_of (AList.map_default k [b] (\<lambda>networks. networks @ [b]) pn) k =
     Some (case map_of pn k of None \<Rightarrow> [b] | Some networks \<Rightarrow> networks @ [b])"
  by (simp add: map_of_map_default split: option.splits)

lemma map_of_map_default_other:
  "q \<noteq> k \<Longrightarrow> map_of (AList.map_default k v f pn) q = map_of pn q"
  by (simp add: map_of_map_default)

lemma hasBinding_map_default_same:
  "NodeID b = nodeID \<Longrightarrow>
   hasBinding nodeID (AList.map_default k [b] (\<lambda>networks. networks @ [b]) pn) k"
  unfolding hasBinding_def map_of_map_default_same
  by (cases "map_of pn k") auto

lemma hasBinding_map_default_mono:
  assumes "hasBinding nodeID pn q"
  shows "hasBinding nodeID (AList.map_default k [b] (\<lambda>networks. networks @ [b]) pn) q"
proof (cases "q = k")
  case True
  from assms True obtain networks b' where
    n: "map_of pn k = Some networks" "b' \<in> set networks" "NodeID b' = nodeID"
    by (auto simp: hasBinding_def)
  then have "map_of (AList.map_default k [b] (\<lambda>networks. networks @ [b]) pn) k =
      Some (networks @ [b])"
    by (simp add: map_of_map_default_same)
  with n True show ?thesis
    unfolding hasBinding_def by auto
next
  case False
  with assms show ?thesis
    by (simp add: hasBinding_def map_of_map_default_other)
qed

lemma reconciled_map_default:
  assumes "reconciled providers nodeID pn" "k \<in> set providers" "NodeID b = nodeID" "nodeID \<noteq> []"
  shows "reconciled providers nodeID (AList.map_default k [b] (\<lambda>networks. networks @ [b]) pn)"
  unfolding reconciled_def
proof (intro conjI ballI)
  show "distinct (map fst (AList.map_default k [b] (\<lambda>networks. networks @ [b]) pn))"
    using assms(1) by (simp add: reconciled_def distinct_map_default)
next
  fix entry
  assume "entry \<in> set (AList.map_default k [b] (\<lambda>networks. networks @ [b]) pn)"
  from set_map_default_cases [OF this]
  consider "entry \<in> set pn" | "entry = (k, [b])" | old where "(k, old) \<in> set pn" "entry = (k, old @ [b])"
    by blast
  then show "entryReconciled providers nodeID entry"
  proof cases
    case 1
    with assms(1) show ?thesis by (simp add: reconciled_def)
  next
    case 2
    with assms(2-4) show ?thesis by (simp add: entryReconciled_def)
  next
    case 3
    from 3(1) assms(1) have "entryReconciled providers nodeID (k, old)"
      by (auto simp: reconciled_def)
    with 3(2) assms(2-4) show ?thesis by (auto simp: entryReconciled_def)
  qed
qed

lemma addProviderNetworksLoop_reconciled:
  assumes "addProviderNetworksLoop e nodeID ps acc m = ((nps, None), m')"
    and "reconciled providers nodeID (providerNetworks m)"
    and "set ps \<subseteq> set providers" "nodeID \<noteq> []"
  shows "reconciled providers nodeID (providerNetworks m') \<and>
     (\<forall>p\<in>set ps. hasBinding nodeID (providerNetworks m') p) \<and>
     (\<forall>q. hasBinding nodeID (providerNetworks m) q \<longrightarrow> hasBinding nodeID (providerNetworks m') q)"
  using assms(1-3)
proof (induction ps arbitrary: acc m)
  case Nil
  then show ?case by simp
next
  case (Cons p ps)
  from Cons.prems(3) have p: "p \<in> set providers" and ps: "set ps \<subseteq> set providers" by auto
  have step: "\<exists>acc1 m1. addProviderNetworksLoop e nodeID ps acc1 m1 = ((nps, None), m') \<and>
      reconciled providers nodeID (providerNetworks m1) \<and>
      hasBinding nodeID (providerNetworks m1) p \<and>
      (\<forall>q. hasBinding nodeID (providerNetworks m) q \<longrightarrow> hasBinding nodeID (providerNetworks m1) q)"
  proof (cases "map_of (providerNetworks m) p")
    case None
    obtain r m1 where c: "createProviderNetwork e p nodeID m = (r, m1)"
      by (cases "createProviderNetwork e p nodeID m")
    with Cons.prems(1) None obtain netParam where r: "r = Inr netParam"
      and rest: "addProviderNetworksLoop e nodeID ps (acc @ [netParam]) m1 = ((nps, None), m')"
      by (cases r) auto
    from c r obtain vlanID b where
      s: "setupNetworkParameters e p
            \<lparr>NetworkParameters' = zeroNetworkParameters\<lparr>NetworkID := p, VlanID := vlanID\<rparr>,
             NodeID = nodeID\<rparr> m = (Inr b, m1)"
      by (auto simp: createProviderNetwork_def split: sum.splits prod.splits)
    from setupNetworkParameters_Inr [OF s]
    have b: "NodeID b = nodeID"
      and pn: "providerNetworks m1 =
         AList.map_default p [b] (\<lambda>networks. networks @ [b]) (providerNetworks m)"
      by simp_all
    have "reconciled providers nodeID (providerNetworks m1)"
      unfolding pn using Cons.prems(2) p b assms(4) by (rule reconciled_map_default)
    moreover have "hasBinding nodeID (providerNetworks m1) p"
      unfolding pn using b by (rule hasBinding_map_default_same)
    moreover have "\<forall>q. hasBinding nodeID (providerNetworks m) q \<longrightarrow>
        hasBinding nodeID (providerNetworks m1) q"
      unfolding pn by (blast intro: hasBinding_map_default_mono)
    ultimately show ?thesis using rest by blast
  next
    case (Some networks)
    show ?thesis
    proof (cases "find (\<lambda>networkParameter. NodeID networkParameter = nodeID) networks")
      case found: (Some networkParameter)
      with Some Cons.prems(1)
      have rest: "addProviderNetworksLoop e nodeID ps
          (acc @ [NetworkParameters' networkParameter]) m = ((nps, None), m')"
        by simp
      from found have "networkParameter \<in> set networks \<and> NodeID networkParameter = nodeID"
        by (auto simp: find_Some_iff)
      with Some have "hasBinding nodeID (providerNetworks m) p"
        by (auto simp: hasBinding_def)
      with rest Cons.prems(2) show ?thesis by blast
    next
      case None
      show ?thesis
      proof (cases networks)
        case Nil
        with None Some Cons.prems(1) show ?thesis by simp
      next
        case (Cons first others)
        obtain r m1 where u: "updateProviderNetworkForNode e p nodeID
            (NetworkParameters' first) m = (r, m1)"
          by (cases "updateProviderNetworkForNode e p nodeID (NetworkParameters' first) m")
        with Cons.prems(1) None Some Cons obtain netParam where r: "r = Inr netParam"
          and rest: "addProviderNetworksLoop e nodeID ps (acc @ [netParam]) m1 = ((nps, None), m')"
          by (cases r) auto
        from u r obtain b where
          s: "setupNetworkParameters e p
                \<lparr>NetworkParameters' = NetworkParameters' first, NodeID = nodeID\<rparr> m = (Inr b, m1)"
          by (auto simp: updateProviderNetworkForNode_def split: sum.splits prod.splits)
        from setupNetworkParameters_Inr [OF s]
        have b: "NodeID b = nodeID"
          and pn: "providerNetworks m1 =
             AList.map_default p [b] (\<lambda>networks. networks @ [b]) (providerNetworks m)"
          by simp_all
        have "reconciled providers nodeID (providerNetworks m1)"
          unfolding pn using Cons.prems(2) p b assms(4) by (rule reconciled_map_default)
        moreover have "hasBinding nodeID (providerNetworks m1) p"
          unfolding pn using b by (rule hasBinding_map_default_same)
        moreover have "\<forall>q. hasBinding nodeID (providerNetworks m) q \<longrightarrow>
            hasBinding nodeID (providerNetworks m1) q"
          unfolding pn by (blast intro: hasBinding_map_default_mono)
        ultimately show ?thesis using rest by blast
      qed
    qed
  qed
  then obtain acc1 m1 where
    rest: "addProviderNetworksLoop e nodeID ps acc1 m1 = ((nps, None), m')"
    and rec: "reconciled providers nodeID (providerNetworks m1)"
    and hb: "hasBinding nodeID (providerNetworks m1) p"
    and mono: "\<forall>q. hasBinding nodeID (providerNetworks m) q \<longrightarrow> hasBinding nodeID (providerNetworks m1) q"
    by blast
  from Cons.IH [OF rest rec ps]
  have "reconciled providers nodeID (providerNetworks m')"
    and a: "\<forall>p\<in>set ps. hasBinding nodeID (providerNetworks m') p"
    and b: "\<forall>q. hasBinding nodeID (providerNetworks m1) q \<longrightarrow> hasBinding nodeID (providerNetworks m') q"
    by blast+
  with hb mono show ?case by auto
qed

lemma removeProviderNetwork_fixed:
  assumes "reconciled providers nodeID (providerNetworks m)" "(k, v) \<in> set (providerNetworks m)"
  shows "removeProviderNetwork e providers nodeID (k, v) m = m"
proof -
  from assms have er: "entryReconciled providers nodeID (k, v)"
    and d: "distinct (map fst (providerNetworks m))"
    by (auto simp: reconciled_def)
  from d assms(2) have "map_of (providerNetworks m) k = Some v" by simp
  then have triv: "AList.update k v (providerNetworks m) = providerNetworks m"
    by (rule update_triv)
  from er have valid: "filter (\<lambda>info. NodeID info \<noteq> []) v = v" and ne: "v \<noteq> []"
    by (auto simp: entryReconciled_def)
  show ?thesis
  proof (cases "k \<in> set providers")
    case True
    with valid ne triv show ?thesis
      by (simp add: removeProviderNetwork_def Let_def)
  next
    case False
    with er have "filter (\<lambda>info. NodeID info \<noteq> nodeID) v = v"
      by (auto simp: entryReconciled_def)
    with False valid ne triv show ?thesis
      by (simp add: removeProviderNetwork_def Let_def)
  qed
qed

lemma fold_fixed: "\<forall>x\<in>set xs. f x m = m \<Longrightarrow> fold f xs m = m"
  by (induction xs) auto

lemma removeProviderNetworks_fixed:
  assumes "reconciled providers nodeID (providerNetworks m)"
  shows "removeProviderNetworks e providers nodeID m = m"
  unfolding removeProviderNetworks_def
  by (rule fold_fixed) (auto intro: removeProviderNetwork_fixed [OF assms])

lemma addProviderNetworksLoop_fixed:
  "\<forall>p\<in>set ps. hasBinding nodeID (providerNetworks m) p \<Longrightarrow>
   snd (addProviderNetworksLoop e nodeID ps acc m) = m \<and>
   snd (fst (addProviderNetworksLoop e nodeID ps acc m)) = None"
proof (induction ps arbitrary: acc)
  case Nil
  then show ?case by simp
next
  case (Cons p ps)
  from Cons.prems obtain networks b where
    n: "map_of (providerNetworks m) p = Some networks" "b \<in> set networks" "NodeID b = nodeID"
    by (auto simp: hasBinding_def)
  then obtain networkParameter where
    "find (\<lambda>networkParameter. NodeID networkParameter = nodeID) networks = Some networkParameter"
    by (cases "find (\<lambda>networkParameter. NodeID networkParameter = nodeID) networks")
       (auto simp: find_None_iff)
  with n Cons show ?case by simp
qed


text \<open>
  Claim C5, as the specification states it, fails. With the storage refusing
  \<^verbatim>\<open>AddNetworkInfo\<close>, each of two equal calls takes a further IP from the allocator. And
  with the empty node id, the binding that the first call makes is dropped by the second
  call as a stale row and made again with a further IP.
\<close>

theorem update_provider_network_twice_differs:
  "usedIPSubnets (ipamSubnet (snd (UpdateProviderNetwork envStorageDown [''netX''] ''nodeA'' manager0))) =
     [(''netX'', net17, [[172, 17, 0, 1]])] \<and>
   usedIPSubnets (ipamSubnet (snd (UpdateProviderNetwork envStorageDown [''netX''] ''nodeA''
       (snd (UpdateProviderNetwork envStorageDown [''netX''] ''nodeA'' manager0))))) =
     [(''netX'', net17, [[172, 17, 0, 2], [172, 17, 0, 1]])] \<and>
   snd (UpdateProviderNetwork envStorageDown [''netX''] ''nodeA''
       (snd (UpdateProviderNetwork envStorageDown [''netX''] ''nodeA'' manager0))) \<noteq>
     snd (UpdateProviderNetwork envStorageDown [''netX''] ''nodeA'' manager0) \<and>
   map_option (map (\<lambda>b. (NodeID b, IP (NetworkParameters' b))))
     (map_of (providerNetworks (snd (UpdateProviderNetwork envOK [''netY''] [] managerX))) ''netY'') =
     Some [(''nodeA'', ''172.18.0.1''), ([], ''172.18.0.2'')] \<and>
   map_option (map (\<lambda>b. (NodeID b, IP (NetworkParameters' b))))
     (map_of (providerNetworks (snd (UpdateProviderNetwork envOK [''netY''] []
        (snd (UpdateProviderNetwork envOK [''netY''] [] managerX))))) ''netY'') =
     Some [(''nodeA'', ''172.18.0.1''), ([], ''172.18.0.3'')] \<and>
   snd (UpdateProviderNetwork envOK [''netY''] []
       (snd (UpdateProviderNetwork envOK [''netY''] [] managerX))) \<noteq>
     snd (UpdateProviderNetwork envOK [''netY''] [] managerX)"
  by code_simp


text \<open>
  Claim C5, amended: when the node id is not empty and the first call made or found all
  its bindings (\<^verbatim>\<open>addProviderNetworks\<close> returned no error), a second call with the same
  providers and node, whatever its environment answers, leaves the manager as the first
  call left it.
\<close>

theorem update_provider_network_idempotent:
  assumes "distinct (map fst (providerNetworks manager))"
    and "nodeID \<noteq> []"
    and "snd (fst (addProviderNetworks e providers nodeID
            (removeProviderNetworks e providers nodeID manager))) = None"
  shows "snd (UpdateProviderNetwork e' providers nodeID
            (snd (UpdateProviderNetwork e providers nodeID manager))) =
         snd (UpdateProviderNetwork e providers nodeID manager)"
proof -
  let ?m0 = "removeProviderNetworks e providers nodeID manager"
  obtain nps m1 where a: "addProviderNetworksLoop e nodeID providers [] ?m0 = ((nps, None), m1)"
    using assms(3) unfolding addProviderNetworks_def
    by (cases "addProviderNetworksLoop e nodeID providers [] ?m0") auto
  then have m1: "snd (UpdateProviderNetwork e providers nodeID manager) = m1"
    by (simp add: UpdateProviderNetwork_def addProviderNetworks_def)
  have "reconciled providers nodeID (providerNetworks ?m0)"
    using assms(1) by (rule removeProviderNetworks_reconciled)
  from addProviderNetworksLoop_reconciled [OF a this _ assms(2)]
  have rec: "reconciled providers nodeID (providerNetworks m1)"
    and hb: "\<forall>p\<in>set providers. hasBinding nodeID (providerNetworks m1) p"
    by auto
  have r: "removeProviderNetworks e' providers nodeID m1 = m1"
    using rec by (rule removeProviderNetworks_fixed)
  from addProviderNetworksLoop_fixed [OF hb, of e' "[]"]
  have "snd (addProviderNetworks e' providers nodeID m1) = m1"
    and "snd (fst (addProviderNetworks e' providers nodeID m1)) = None"
    by (simp_all add: addProviderNetworks_def)
  then have "snd (UpdateProviderNetwork e' providers nodeID m1) = m1"
    by (auto simp: UpdateProviderNetwork_def r split: prod.splits option.splits)
  with m1 show ?thesis by simp
qed

theorem update_provider_network_idempotent_witness:
  "distinct (map fst (providerNetworks manager0)) \<and>
   ''nodeA'' \<noteq> [] \<and>
   snd (fst (addProviderNetworks envOK [''netX'', ''netY''] ''nodeA''
          (removeProviderNetworks envOK [''netX'', ''netY''] ''nodeA'' manager0))) = None \<and>
   snd (UpdateProviderNetwork envStorageDown [''netX'', ''netY''] ''nodeA''
          (snd (UpdateProviderNetwork envOK [''netX'', ''netY''] ''nodeA'' manager0))) =
     snd (UpdateProviderNetwork envOK [''netX'', ''netY''] ''nodeA'' manager0)"
proof -
  have a: "distinct (map fst (providerNetworks manager0))"
    by (simp add: manager0_def)
  have b: "''nodeA'' \<noteq> []"
    by simp
  have c: "snd (fst (addProviderNetworks envOK [''netX'', ''netY''] ''nodeA''
          (removeProviderNetworks envOK [''netX'', ''netY''] ''nodeA'' manager0))) = None"
    by code_simp
  from update_provider_network_idempotent [OF a b c, of envStorageDown] a b c
  show ?thesis by (intro conjI)
qed

end
